theory Spec2Isabelle
  imports Main "HOL-Library.Log_Nat"
begin

section \<open>JavaScript numbers\<close>

text \<open>
  Every number of \<^verbatim>\<open>gameEngine.js\<close> is an IEEE-754 double. The counters of the engine
  (score, level, timeLeft, lives, an item's y and score, baseSpeed, spawnInterval) only ever
  hold integers far below \<open>2^53\<close>, on which double arithmetic is exact; they are modelled
  as \<open>int\<close>. The remaining numbers (time stamps, \<^verbatim>\<open>Math.random()\<close> draws and the
  bomb probability \<^verbatim>\<open>0.1 + level * 0.05\<close>) are modelled by their exact rational value,
  and every arithmetic operation on them rounds its exact result to the nearest double, ties
  to even (\<open>fl\<close>). Overflow and subnormal numbers are not modelled; no value of the engine
  comes near them.
\<close>

definition pow2 :: "int \<Rightarrow> rat" where
  "pow2 e = (if 0 \<le> e then 2 ^ nat e else 1 / 2 ^ nat (- e))"

definition round_half_even :: "rat \<Rightarrow> int" where
  "round_half_even m =
     (let f = \<lfloor>m\<rfloor>; d = m - of_int f in
      if d < 1 / 2 then f
      else if 1 / 2 < d then f + 1
      else if even f then f else f + 1)"

text \<open>\<open>expo x\<close> is the binary exponent of \<open>x \<noteq> 0\<close>: \<open>2 ^ expo x \<le> \<bar>x\<bar> < 2 ^ (expo x + 1)\<close>.\<close>

definition expo :: "rat \<Rightarrow> int" where
  "expo x =
     (let (p, q) = quotient_of \<bar>x\<bar>; d = bitlen p - bitlen q in
      if pow2 d \<le> \<bar>x\<bar> then d else d - 1)"

text \<open>Rounding to a significand of 53 bits.\<close>

definition fl :: "rat \<Rightarrow> rat" where
  "fl x =
     (if x = 0 then 0
      else let e = expo x - 52 in of_int (round_half_even (x / pow2 e)) * pow2 e)"

definition fadd :: "rat \<Rightarrow> rat \<Rightarrow> rat" where
  "fadd a b = fl (a + b)"

definition fsub :: "rat \<Rightarrow> rat \<Rightarrow> rat" where
  "fsub a b = fl (a - b)"

definition fmul :: "rat \<Rightarrow> rat \<Rightarrow> rat" where
  "fmul a b = fl (a * b)"

text \<open>
  The remainder operator \<^verbatim>\<open>%\<close> of JavaScript truncates towards zero: the result has the
  sign of the dividend.
\<close>

definition js_rem :: "int \<Rightarrow> int \<Rightarrow> int" where
  "js_rem a b = sgn a * (\<bar>a\<bar> mod \<bar>b\<bar>)"

section \<open>Data model\<close>

text \<open>
  \<^verbatim>\<open>this.state\<close> is only ever assigned one of three string literals. Zones and item types
  stay strings, as in the source: \<^verbatim>\<open>setBasketZone\<close> receives whatever class name the pose
  classifier produced.
\<close>

datatype game_state = STOPPED | RUNNING | GAMEOVER

text \<open>
  An entry of \<^verbatim>\<open>this.itemTypes\<close> and a falling item. The emoji and the DOM element of an
  item are presentation only (the element's \<^verbatim>\<open>style.top\<close> always mirrors \<open>y\<close>, and the
  children of the items container mirror \<^verbatim>\<open>this.items\<close>); they are left out.
\<close>

record item_kind =
  kind_type :: string
  kind_score :: int

record item =
  item_id :: string
  item_type :: string
  item_score :: int
  item_zone :: string
  item_y :: int

text \<open>
  The DOM elements the engine writes to: the text of the HUD (the lives as the number of
  hearts shown), the position of the basket, and the overlay with its title, the reason of
  the end of the session and the final score. The label of the start button, which
  \<^verbatim>\<open>main.js\<close> writes as well, is left out.
\<close>

record dom =
  scoreEl :: int
  levelEl :: int
  timeEl :: int
  livesEl :: nat
  basketLeft :: string
  overlayHidden :: bool
  overlayTitle :: string
  overlayDesc :: string
  finalScoreShown :: bool
  finalScoreText :: int

text \<open>
  The fields of \<^verbatim>\<open>GameEngine\<close>, followed by the part of the browser the engine talks to:
  the animation-frame callbacks and interval timers that are currently registered, and the
  next handle each registry hands out.
\<close>

record game =
  score :: int
  level :: int
  timeLeft :: int
  lives :: int
  state :: game_state
  basketZone :: string
  items :: "item list"
  lastSpawnTime :: rat
  spawnInterval :: int
  baseSpeed :: int
  gameLoopId :: "nat option"
  timerInterval :: "nat option"
  lastTime :: "rat option"
  page :: dom
  pendingFrames :: "nat set"
  activeIntervals :: "nat set"
  nextFrameId :: nat
  nextTimerId :: nat

text \<open>The four results of \<^verbatim>\<open>Math.random()\<close> that one call of \<^verbatim>\<open>spawnItem\<close> consumes.\<close>

record draws =
  rZone :: rat
  rBomb :: rat
  rFruit :: rat
  rId :: string

definition itemTypes :: "item_kind list" where
  "itemTypes =
     [\<lparr>kind_type = ''apple'', kind_score = 100\<rparr>,
      \<lparr>kind_type = ''pear'', kind_score = 150\<rparr>,
      \<lparr>kind_type = ''orange'', kind_score = 200\<rparr>,
      \<lparr>kind_type = ''bomb'', kind_score = 0\<rparr>]"

text \<open>
  The constructor. The initial content of the page comes from the HTML document, which is
  a parameter here.
\<close>

definition GameEngine :: "dom \<Rightarrow> game" where
  "GameEngine d =
     \<lparr>score = 0, level = 1, timeLeft = 60, lives = 3, state = STOPPED,
      basketZone = ''CENTER'', items = [], lastSpawnTime = 0, spawnInterval = 2000,
      baseSpeed = 3, gameLoopId = None, timerInterval = None, lastTime = None,
      page = d, pendingFrames = {}, activeIntervals = {},
      nextFrameId = 1, nextTimerId = 1\<rparr>"

section \<open>Operations\<close>

definition updateUI :: "game \<Rightarrow> game" where
  "updateUI w =
     w\<lparr>page := (page w)\<lparr>scoreEl := score w, levelEl := level w, timeEl := timeLeft w,
                          livesEl := nat (max 0 (lives w))\<rparr>\<rparr>"

definition setBasketZone :: "string \<Rightarrow> game \<Rightarrow> game" where
  "setBasketZone zone w =
     (let leftPercent = ''50%'';
          leftPercent = (if zone = ''LEFT'' then ''16.66%'' else leftPercent);
          leftPercent = (if zone = ''RIGHT'' then ''83.33%'' else leftPercent)
      in w\<lparr>basketZone := zone,
            page := (page w)\<lparr>basketLeft := ''calc('' @ leftPercent @ '' - 40px)''\<rparr>\<rparr>)"

definition requestAnimationFrame :: "game \<Rightarrow> game" where
  "requestAnimationFrame w =
     w\<lparr>gameLoopId := Some (nextFrameId w),
       pendingFrames := insert (nextFrameId w) (pendingFrames w),
       nextFrameId := nextFrameId w + 1\<rparr>"

definition setInterval :: "game \<Rightarrow> game" where
  "setInterval w =
     w\<lparr>timerInterval := Some (nextTimerId w),
       activeIntervals := insert (nextTimerId w) (activeIntervals w),
       nextTimerId := nextTimerId w + 1\<rparr>"

definition stop :: "game \<Rightarrow> game" where
  "stop w =
     w\<lparr>state := STOPPED,
       pendingFrames := pendingFrames w - set_option (gameLoopId w),
       activeIntervals := activeIntervals w - set_option (timerInterval w)\<rparr>"

definition resetGame :: "game \<Rightarrow> game" where
  "resetGame w =
     setBasketZone ''CENTER''
       (updateUI (w\<lparr>score := 0, level := 1, timeLeft := 60, lives := 3, items := [],
                    spawnInterval := 2000, baseSpeed := 3\<rparr>))"

definition gameOver :: "string \<Rightarrow> game \<Rightarrow> game" where
  "gameOver reason w =
     (let w = stop w;
          w = w\<lparr>state := GAMEOVER\<rparr>
      in w\<lparr>page := (page w)\<lparr>overlayTitle := ''GAME OVER'', overlayDesc := reason,
                             finalScoreShown := True, finalScoreText := score w,
                             overlayHidden := False\<rparr>\<rparr>)"

text \<open>The colour flash of \<^verbatim>\<open>levelUp\<close> is presentation only and left out.\<close>

definition levelUp :: "game \<Rightarrow> game" where
  "levelUp w =
     (let w = w\<lparr>level := level w + 1\<rparr>;
          w = w\<lparr>baseSpeed := baseSpeed w + 1\<rparr>;
          w = w\<lparr>spawnInterval := max 500 (2000 - (level w - 1) * 300)\<rparr>
      in updateUI w)"

text \<open>The callback that \<^verbatim>\<open>start\<close> hands to \<^verbatim>\<open>setInterval\<close>.\<close>

definition timerCallback :: "game \<Rightarrow> game" where
  "timerCallback w =
     (let w = updateUI (w\<lparr>timeLeft := timeLeft w - 1\<rparr>);
          w = (if js_rem (60 - timeLeft w) 20 = 0 \<and> timeLeft w \<noteq> 60 then levelUp w else w)
      in if timeLeft w \<le> 0 then gameOver ''Time's Up!'' w else w)"

text \<open>\<open>start now\<close>: \<open>now\<close> is what \<^verbatim>\<open>performance.now()\<close> returns.\<close>

definition start :: "rat \<Rightarrow> game \<Rightarrow> game" where
  "start now w =
     (if state w = RUNNING then w
      else let w = resetGame w;
               w = w\<lparr>state := RUNNING\<rparr>;
               w = w\<lparr>page := (page w)\<lparr>overlayHidden := True\<rparr>\<rparr>;
               w = w\<lparr>lastSpawnTime := now\<rparr>;
               w = requestAnimationFrame w
           in setInterval w)"

subsection \<open>Spawning\<close>

text \<open>
  \<^verbatim>\<open>xs[Math.floor(Math.random() * xs.length)]\<close>. A draw of \<^verbatim>\<open>Math.random()\<close> lies in
  \<open>[0, 1)\<close>, so the index is in range; \<open>None\<close> stands for the \<^verbatim>\<open>undefined\<close> that an
  index out of range would read.
\<close>

definition pick :: "'a list \<Rightarrow> rat \<Rightarrow> 'a option" where
  "pick xs r =
     (let i = \<lfloor>fmul r (of_nat (length xs))\<rfloor>
      in if 0 \<le> i \<and> i < int (length xs) then Some (xs ! nat i) else None)"

definition bombChance :: "int \<Rightarrow> rat" where
  "bombChance lvl = min (fadd (fl (1 / 10)) (fmul (of_int lvl) (fl (5 / 100)))) (fl (4 / 10))"

text \<open>
  No item is created when a pick reads out of range; with draws of \<^verbatim>\<open>Math.random()\<close>
  that does not happen.
\<close>

definition spawnItem :: "draws \<Rightarrow> game \<Rightarrow> game" where
  "spawnItem d w =
     (let zones = [''LEFT'', ''CENTER'', ''RIGHT''];
          zone = pick zones (rZone d);
          itemType =
            (if rBomb d < bombChance (level w)
             then find (\<lambda>i. kind_type i = ''bomb'') itemTypes
             else pick (filter (\<lambda>i. kind_type i \<noteq> ''bomb'') itemTypes) (rFruit d))
      in case (zone, itemType) of
           (Some z, Some t) \<Rightarrow>
             w\<lparr>items := items w @
                  [\<lparr>item_id = rId d, item_type = kind_type t, item_score = kind_score t,
                    item_zone = z, item_y = - 50\<rparr>]\<rparr>
         | _ \<Rightarrow> w)"

definition spawnSystem :: "rat \<Rightarrow> draws \<Rightarrow> game \<Rightarrow> game" where
  "spawnSystem timestamp d w =
     (if fsub timestamp (lastSpawnTime w) > of_int (spawnInterval w)
      then (spawnItem d w)\<lparr>lastSpawnTime := timestamp\<rparr>
      else w)"

subsection \<open>Motion and misses\<close>

text \<open>\<^verbatim>\<open>this.items.splice(index, 1)\<close>.\<close>

definition splice1 :: "nat \<Rightarrow> 'a list \<Rightarrow> 'a list" where
  "splice1 index xs = take index xs @ drop (Suc index) xs"

definition handleMiss :: "item \<Rightarrow> nat \<Rightarrow> game \<Rightarrow> game" where
  "handleMiss it index w =
     (let w = w\<lparr>items := splice1 index (items w)\<rparr>
      in if item_type it \<noteq> ''bomb''
         then (let w = updateUI (w\<lparr>lives := lives w - 1\<rparr>)
               in if lives w \<le> 0 then gameOver ''Too many fruits missed!'' w else w)
         else w)"

text \<open>The body of the \<^verbatim>\<open>forEach\<close> callback of \<^verbatim>\<open>updateItems\<close>, at index \<open>index\<close>.\<close>

definition moveItem :: "int \<Rightarrow> nat \<Rightarrow> game \<Rightarrow> game" where
  "moveItem gameHeight index w =
     (let it = (items w ! index)\<lparr>item_y := item_y (items w ! index) + baseSpeed w\<rparr>;
          w = w\<lparr>items := (items w)[index := it]\<rparr>
      in if item_y it > gameHeight then handleMiss it index w else w)"

text \<open>
  \<^verbatim>\<open>Array.prototype.forEach\<close> reads the length once, then visits the indices
  \<open>0, 1, ...\<close> below that length in order, calling the callback at every index that the
  array still has at that moment. \<open>forEachItems h k n w\<close> is the rest of that loop at index
  \<open>k\<close> with \<open>n\<close> indices still to go.
\<close>

fun forEachItems :: "int \<Rightarrow> nat \<Rightarrow> nat \<Rightarrow> game \<Rightarrow> game" where
  "forEachItems gameHeight k 0 w = w"
| "forEachItems gameHeight k (Suc n) w =
     forEachItems gameHeight (Suc k) n
       (if k < length (items w) then moveItem gameHeight k w else w)"

definition updateItems :: "int \<Rightarrow> game \<Rightarrow> game" where
  "updateItems gameHeight w = forEachItems gameHeight 0 (length (items w)) w"

subsection \<open>Collisions\<close>

definition handleCatch :: "item \<Rightarrow> nat \<Rightarrow> game \<Rightarrow> game" where
  "handleCatch it index w =
     (let w = w\<lparr>items := splice1 index (items w)\<rparr>
      in if item_type it = ''bomb'' then gameOver ''You caught a Bomb!'' w
         else updateUI (w\<lparr>score := score w + item_score it\<rparr>))"

text \<open>The body of the \<^verbatim>\<open>for\<close> loop of \<^verbatim>\<open>checkCollisions\<close>, at index \<open>i\<close>.\<close>

definition collideItem :: "int \<Rightarrow> nat \<Rightarrow> game \<Rightarrow> game" where
  "collideItem containerHeight i w =
     (let basketTop = containerHeight - 100;
          basketBottom = containerHeight - 20;
          it = items w ! i;
          itemBottom = item_y it + 50;
          itemTop = item_y it
      in if itemBottom \<ge> basketTop \<and> itemTop \<le> basketBottom
         then (if item_zone it = basketZone w then handleCatch it i w else w)
         else w)"

text \<open>
  The loop \<^verbatim>\<open>for (let i = this.items.length - 1; i >= 0; i--)\<close>: \<open>collideFrom h n w\<close>
  runs the iterations \<open>i = n - 1, ..., 0\<close>.
\<close>

fun collideFrom :: "int \<Rightarrow> nat \<Rightarrow> game \<Rightarrow> game" where
  "collideFrom containerHeight 0 w = w"
| "collideFrom containerHeight (Suc i) w =
     collideFrom containerHeight i (collideItem containerHeight i w)"

definition checkCollisions :: "int \<Rightarrow> game \<Rightarrow> game" where
  "checkCollisions containerHeight w = collideFrom containerHeight (length (items w)) w"

subsection \<open>The frame loop and the events of the browser\<close>

text \<open>
  \<open>loop timestamp h d\<close>: \<open>h\<close> is the \<^verbatim>\<open>offsetHeight\<close> of the game area, which
  \<^verbatim>\<open>updateItems\<close> and \<^verbatim>\<open>checkCollisions\<close> both read during this one synchronous
  call, and \<open>d\<close> holds the random draws for a spawn. The local \<^verbatim>\<open>deltaTime\<close> is never
  used.
\<close>

definition loop :: "rat \<Rightarrow> int \<Rightarrow> draws \<Rightarrow> game \<Rightarrow> game" where
  "loop timestamp h d w =
     (if state w \<noteq> RUNNING then w
      else let w = w\<lparr>lastTime := Some timestamp\<rparr>;
               w = spawnSystem timestamp d w;
               w = updateItems h w;
               w = checkCollisions h w
           in requestAnimationFrame w)"

text \<open>
  What can happen to an engine: a click on the start button, a call of \<^verbatim>\<open>stop\<close>, a
  prediction of the classifier, the browser running a registered animation-frame callback
  (which unregisters it), and the browser running a registered interval timer. An event
  for a handle that is not registered does nothing.
\<close>

datatype event =
    Start rat
  | Stop
  | SetBasketZone string
  | Frame nat rat int draws
  | Timer nat

fun fire :: "event \<Rightarrow> game \<Rightarrow> game" where
  "fire (Start now) w = start now w"
| "fire Stop w = stop w"
| "fire (SetBasketZone zone) w = setBasketZone zone w"
| "fire (Frame k timestamp h d) w =
     (if k \<in> pendingFrames w
      then loop timestamp h d (w\<lparr>pendingFrames := pendingFrames w - {k}\<rparr>)
      else w)"
| "fire (Timer k) w = (if k \<in> activeIntervals w then timerCallback w else w)"

fun run :: "event list \<Rightarrow> game \<Rightarrow> game" where
  "run [] w = w"
| "run (e # es) w = run es (fire e w)"

inductive reachable :: "dom \<Rightarrow> game \<Rightarrow> bool" for d :: dom where
  reachable_init: "reachable d (GameEngine d)"
| reachable_fire: "reachable d w \<Longrightarrow> reachable d (fire e w)"

fun isStart :: "event \<Rightarrow> bool" where
  "isStart (Start now) = True"
| "isStart e = False"

section \<open>Notions used to state the properties\<close>

text \<open>
  The collision test in the words of the specification: the vertical extent
  \<open>[y, y + 50]\<close> of the item overlaps the catch band
  \<open>[containerHeight - 100, containerHeight - 20]\<close>, and the item is in the given zone.
\<close>

definition collides :: "int \<Rightarrow> string \<Rightarrow> item \<Rightarrow> bool" where
  "collides containerHeight zone it \<longleftrightarrow>
     containerHeight - 100 \<le> item_y it + 50 \<and> item_y it \<le> containerHeight - 20 \<and>
     item_zone it = zone"

text \<open>The test \<^verbatim>\<open>item.type === 'bomb'\<close>, and an item after one step of its fall.\<close>

definition isBomb :: "item \<Rightarrow> bool" where
  "isBomb it \<longleftrightarrow> item_type it = ''bomb''"

definition moved :: "int \<Rightarrow> item \<Rightarrow> item" where
  "moved speed it = it\<lparr>item_y := item_y it + speed\<rparr>"

text \<open>
  Two invariants of the engine: every live item carries a non-negative score, and a running
  session has at least one life left.
\<close>

definition scoresOk :: "game \<Rightarrow> bool" where
  "scoresOk w \<longleftrightarrow> (\<forall>it \<in> set (items w). 0 \<le> item_score it)"

definition livesOk :: "game \<Rightarrow> bool" where
  "livesOk w \<longleftrightarrow> (state w = RUNNING \<longrightarrow> 1 \<le> lives w)"

definition sessionInv :: "game \<Rightarrow> bool" where
  "sessionInv w \<longleftrightarrow> scoresOk w \<and> livesOk w \<and> 500 \<le> spawnInterval w"

text \<open>
  "60 - timeRemaining is a positive multiple of 20", and the three lane values the
  specification calls valid.
\<close>

definition levelUpDue :: "int \<Rightarrow> bool" where
  "levelUpDue t \<longleftrightarrow> 0 < 60 - t \<and> 20 dvd (60 - t)"

definition isValidLane :: "string \<Rightarrow> bool" where
  "isValidLane zone \<longleftrightarrow> zone = ''LEFT'' \<or> zone = ''CENTER'' \<or> zone = ''RIGHT''"

text \<open>The session has been ended by a caught bomb.\<close>

definition bombOver :: "game \<Rightarrow> bool" where
  "bombOver w \<longleftrightarrow> state w = GAMEOVER \<and> overlayDesc (page w) = ''You caught a Bomb!''"

section \<open>Concrete scenarios\<close>

text \<open>A page as the HTML document might provide it, and a session that has just started.\<close>

definition page0 :: dom where
  "page0 =
     \<lparr>scoreEl = 0, levelEl = 1, timeEl = 60, livesEl = 3, basketLeft = ''calc(50% - 40px)'',
      overlayHidden = False, overlayTitle = [], overlayDesc = [],
      finalScoreShown = False, finalScoreText = 0\<rparr>"

definition fresh :: game where
  "fresh = start 0 (GameEngine page0)"

text \<open>A session in its last second, with one life lost and 250 points scored.\<close>

definition lastSecond :: game where
  "lastSecond = (start 0 (GameEngine page0))\<lparr>timeLeft := 1, lives := 2, score := 250\<rparr>"

text \<open>The session after nineteen wall-clock ticks: the next tick is the twentieth second.\<close>

definition twentiethSecond :: game where
  "twentiethSecond = run (Start 0 # replicate 19 (Timer 1)) (GameEngine page0)"

text \<open>
  The basket has moved to the left lane. With a game area of height 600 the catch band is
  \<open>[500, 580]\<close>; an apple in the left lane and a pear in the right lane are level with it.
\<close>

definition appleInBand :: game where
  "appleInBand =
     (setBasketZone ''LEFT'' fresh)
       \<lparr>items :=
          [\<lparr>item_id = ''a1'', item_type = ''apple'', item_score = 100,
            item_zone = ''LEFT'', item_y = 550\<rparr>,
           \<lparr>item_id = ''p1'', item_type = ''pear'', item_score = 150,
            item_zone = ''RIGHT'', item_y = 460\<rparr>]\<rparr>"

text \<open>
  The same with a bomb in the left lane as well, spawned last and so at index 2, above the
  apple on the screen. \<open>afterBomb\<close> is the state of the scan of \<^verbatim>\<open>checkCollisions\<close>
  once it has handled the index 2, that is, right after it has caught the bomb.
\<close>

definition bombAboveApple :: game where
  "bombAboveApple =
     (setBasketZone ''LEFT'' fresh)
       \<lparr>items :=
          [\<lparr>item_id = ''a1'', item_type = ''apple'', item_score = 100,
            item_zone = ''LEFT'', item_y = 550\<rparr>,
           \<lparr>item_id = ''p1'', item_type = ''pear'', item_score = 150,
            item_zone = ''RIGHT'', item_y = 505\<rparr>,
           \<lparr>item_id = ''b1'', item_type = ''bomb'', item_score = 0,
            item_zone = ''LEFT'', item_y = 460\<rparr>]\<rparr>"

definition afterBomb :: game where
  "afterBomb = collideItem 600 2 bombAboveApple"

text \<open>
  Random draws that spawn an apple in the left lane: zone index 0, no bomb, fruit index 0.
\<close>

definition appleDraws :: draws where
  "appleDraws = \<lparr>rZone = 0, rBomb = 1 / 2, rFruit = 0, rId = []\<rparr>"

text \<open>
  Two falling fruits, the first of them 2 pixels above the bottom of a game area of height
  600; and three falling fruits in a session that has one life left.
\<close>

definition twoFalling :: game where
  "twoFalling =
     fresh\<lparr>items :=
             [\<lparr>item_id = ''a1'', item_type = ''apple'', item_score = 100,
               item_zone = ''LEFT'', item_y = 598\<rparr>,
              \<lparr>item_id = ''p1'', item_type = ''pear'', item_score = 150,
               item_zone = ''RIGHT'', item_y = 100\<rparr>]\<rparr>"

definition lastLife :: game where
  "lastLife =
     fresh\<lparr>lives := 1,
           items :=
             [\<lparr>item_id = ''a1'', item_type = ''apple'', item_score = 100,
               item_zone = ''LEFT'', item_y = 598\<rparr>,
              \<lparr>item_id = ''p1'', item_type = ''pear'', item_score = 150,
               item_zone = ''RIGHT'', item_y = 400\<rparr>,
              \<lparr>item_id = ''o1'', item_type = ''orange'', item_score = 200,
               item_zone = ''LEFT'', item_y = 199\<rparr>]\<rparr>"

text \<open>Events after the end of a session, none of them a click on the start button.\<close>

definition idleEvents :: "event list" where
  "idleEvents =
     [Frame 2 32 600 appleDraws, SetBasketZone ''LEFT'', Timer 1, Frame 2 48 300 appleDraws,
      Stop, SetBasketZone ''RIGHT'']"

text \<open>
  A session on a slow display. Seven animation frames, 2001 ms apart, each spawn an apple in
  the left lane; over fifteen further frames the apples fall to \<open>y = 16, 13, ..., -2\<close>
  (state \<open>crowded\<close>). In the next frame the game area has collapsed: its
  \<^verbatim>\<open>offsetHeight\<close> is 0.
\<close>

definition apple :: "int \<Rightarrow> item" where
  "apple y =
     \<lparr>item_id = [], item_type = ''apple'', item_score = 100, item_zone = ''LEFT'', item_y = y\<rparr>"

definition spawnFrames :: "event list" where
  "spawnFrames = map (\<lambda>k. Frame k (of_nat (2001 * k)) 600 appleDraws) [1..<8]"

definition fallFrames :: "event list" where
  "fallFrames = map (\<lambda>k. Frame k (of_nat (14000 + k)) 600 appleDraws) [8..<23]"

definition crowded :: game where
  "crowded =
     \<lparr>score = 0, level = 1, timeLeft = 60, lives = 3, state = RUNNING,
      basketZone = ''CENTER'',
      items = [apple 16, apple 13, apple 10, apple 7, apple 4, apple 1, apple (- 2)],
      lastSpawnTime = 14007, spawnInterval = 2000, baseSpeed = 3,
      gameLoopId = Some 23, timerInterval = Some 1, lastTime = Some 14022,
      page = page0\<lparr>scoreEl := 0, levelEl := 1, timeEl := 60, livesEl := 3,
                     basketLeft := ''calc(50% - 40px)'', overlayHidden := True\<rparr>,
      pendingFrames = {23}, activeIntervals = {1}, nextFrameId = 24, nextTimerId = 2\<rparr>"

definition collapse :: event where
  "collapse = Frame 23 14023 0 appleDraws"

section \<open>Rounding\<close>

text \<open>
  \<open>fl\<close> is rounding to the nearest number with a significand of 53 bits: the result is an
  integer multiple \<open>m * 2 ^ (expo x - 52)\<close> with \<open>\<bar>m\<bar> \<le> 2 ^ 53\<close>, and it is at most half a
  unit in the last place away from \<open>x\<close>.
\<close>

lemma pow2_powi: "pow2 e = 2 powi e"
  by (simp add: pow2_def power_int_def inverse_eq_divide power_one_over)

lemma pow2_pos: "0 < pow2 e"
  by (simp add: pow2_powi)

lemma pow2_add: "pow2 (a + b) = pow2 a * pow2 b"
  by (simp add: pow2_powi power_int_add)

lemma pow2_diff: "pow2 (a - b) = pow2 a / pow2 b"
  by (simp add: pow2_powi power_int_diff)

lemma pow2_nat: "0 \<le> e \<Longrightarrow> pow2 e = 2 ^ nat e"
  by (simp add: pow2_def)

lemma bitlen_rat_bounds:
  assumes "0 < p"
  shows "pow2 (bitlen p - 1) \<le> of_int p" and "of_int p < pow2 (bitlen p)"
proof -
  have b: "2 ^ nat (bitlen p - 1) \<le> p" "p < 2 ^ nat (bitlen p)"
    using bitlen_bounds [OF assms] by simp_all
  have ge1: "1 \<le> bitlen p" using assms by (simp add: bitlen_alt_def)
  have "(of_int (2 ^ nat (bitlen p - 1)) :: rat) \<le> of_int p" using b(1) by (simp only: of_int_le_iff)
  then show "pow2 (bitlen p - 1) \<le> of_int p" using ge1 by (simp add: pow2_nat)
  have "(of_int p :: rat) < of_int (2 ^ nat (bitlen p))" using b(2) by (simp only: of_int_less_iff)
  then show "of_int p < pow2 (bitlen p)" using ge1 by (simp add: pow2_nat)
qed

lemma expo_bounds:
  assumes "x \<noteq> 0"
  shows "pow2 (expo x) \<le> \<bar>x\<bar> \<and> \<bar>x\<bar> < pow2 (expo x + 1)"
proof -
  obtain p q where pq: "quotient_of \<bar>x\<bar> = (p, q)" by (cases "quotient_of \<bar>x\<bar>")
  have q: "0 < q" using pq by (rule quotient_of_denom_pos)
  have x: "\<bar>x\<bar> = of_int p / of_int q" using pq by (rule quotient_of_div)
  have "0 < \<bar>x\<bar>" using assms by simp
  then have p: "0 < p" using q x by (simp add: zero_less_divide_iff)
  let ?d = "bitlen p - bitlen q"
  note bp = bitlen_rat_bounds [OF p] and bq = bitlen_rat_bounds [OF q]
  have qpos: "(0::rat) < of_int q" using q by simp
  have ppos: "(0::rat) < of_int p" using p by simp
  have "pow2 (bitlen p - 1) / pow2 (bitlen q) < of_int p / of_int q"
    using bp(1) bq(2) qpos ppos pow2_pos [of "bitlen q"] pow2_pos [of "bitlen p - 1"]
    by (intro frac_less2) simp_all
  then have lower: "pow2 (?d - 1) < \<bar>x\<bar>"
    using pow2_diff [of "bitlen p - 1" "bitlen q"] x by (simp add: algebra_simps)
  have "of_int p / of_int q < pow2 (bitlen p) / pow2 (bitlen q - 1)"
    using bp(2) bq(1) qpos ppos pow2_pos [of "bitlen q - 1"] pow2_pos [of "bitlen p"]
    by (intro frac_less) simp_all
  then have upper: "\<bar>x\<bar> < pow2 (?d + 1)"
    using pow2_diff [of "bitlen p" "bitlen q - 1"] x by (simp add: algebra_simps)
  show ?thesis
  proof (cases "pow2 ?d \<le> \<bar>x\<bar>")
    case True
    then have "expo x = ?d" by (simp add: expo_def pq)
    then show ?thesis using True upper by simp
  next
    case False
    then have "expo x = ?d - 1" by (simp add: expo_def pq)
    then show ?thesis using False lower by simp
  qed
qed

lemma round_half_even_error: "\<bar>of_int (round_half_even m) - m\<bar> \<le> 1 / 2"
proof -
  let ?d = "m - of_int \<lfloor>m\<rfloor>"
  have d: "0 \<le> ?d" "?d < 1" by linarith+
  consider "?d < 1 / 2" | "1 / 2 < ?d" | "?d = 1 / 2" by linarith
  then show ?thesis
  proof cases
    case 1
    then have "round_half_even m = \<lfloor>m\<rfloor>" by (simp add: round_half_even_def Let_def)
    then show ?thesis using d 1 by simp
  next
    case 2
    then have "round_half_even m = \<lfloor>m\<rfloor> + 1" by (simp add: round_half_even_def Let_def)
    then show ?thesis using d 2 by simp
  next
    case 3
    then have "round_half_even m = \<lfloor>m\<rfloor> \<or> round_half_even m = \<lfloor>m\<rfloor> + 1"
      by (simp add: round_half_even_def Let_def)
    then show ?thesis using 3 by auto
  qed
qed

lemma fl_error:
  assumes "x \<noteq> 0"
  shows "\<bar>fl x - x\<bar> \<le> pow2 (expo x - 53)"
proof -
  let ?e = "expo x - 52"
  let ?r = "of_int (round_half_even (x / pow2 ?e)) :: rat"
  have pos: "0 < pow2 ?e" by (rule pow2_pos)
  have "fl x - x = (?r - x / pow2 ?e) * pow2 ?e"
    using assms pos by (simp add: fl_def Let_def algebra_simps)
  then have "\<bar>fl x - x\<bar> = \<bar>?r - x / pow2 ?e\<bar> * pow2 ?e"
    using pos by (simp add: abs_mult)
  also have "\<dots> \<le> 1 / 2 * pow2 ?e"
    using round_half_even_error [of "x / pow2 ?e"] pos by (intro mult_right_mono) simp_all
  also have "\<dots> = pow2 (expo x - 53)"
    using pow2_diff [of ?e 1] by (simp add: pow2_def)
  finally show ?thesis .
qed

lemma fl_mantissa:
  assumes "x \<noteq> 0"
  shows "\<exists>m. fl x = of_int m * pow2 (expo x - 52) \<and> \<bar>m\<bar> \<le> 2 ^ 53"
proof -
  let ?e = "expo x - 52"
  let ?m = "round_half_even (x / pow2 ?e)"
  have pos: "0 < pow2 ?e" by (rule pow2_pos)
  have "\<bar>x\<bar> < pow2 (expo x + 1)" using expo_bounds [OF assms] by simp
  also have "\<dots> = pow2 53 * pow2 ?e"
  proof -
    have "expo x + 1 = 53 + ?e" by simp
    then show ?thesis by (simp only: pow2_add)
  qed
  finally have "\<bar>x\<bar> / pow2 ?e < pow2 53" using pos by (simp add: pos_divide_less_eq)
  moreover have "\<bar>pow2 ?e\<bar> = pow2 ?e" using pos by (rule abs_of_pos)
  ultimately have "\<bar>x / pow2 ?e\<bar> < pow2 53" by (simp only: abs_divide)
  then have "\<bar>x / pow2 ?e\<bar> < 2 ^ 53" by (simp add: pow2_def)
  moreover have "\<bar>(of_int ?m :: rat) - x / pow2 ?e\<bar> \<le> 1 / 2" by (rule round_half_even_error)
  ultimately have "\<bar>of_int ?m :: rat\<bar> < 2 ^ 53 + 1" by linarith
  then have "(of_int \<bar>?m\<bar> :: rat) < of_int (2 ^ 53 + 1)" by simp
  then have "\<bar>?m\<bar> < 2 ^ 53 + 1" by (simp only: of_int_less_iff)
  then show ?thesis using assms by (intro exI [of _ ?m]) (simp add: fl_def Let_def)
qed


lemma fl_lower:
  assumes "0 < x"
  shows "x * (1 - 1 / 2 ^ 53) \<le> fl x"
proof -
  have x0: "x \<noteq> 0" using assms by simp
  have "pow2 (expo x - 53) = pow2 (expo x) / 2 ^ 53"
    using pow2_diff [of "expo x" 53] by (simp add: pow2_def)
  also have "\<dots> \<le> x / 2 ^ 53"
    using expo_bounds [OF x0] assms by (simp add: divide_right_mono)
  finally have "\<bar>fl x - x\<bar> \<le> x / 2 ^ 53" using fl_error [OF x0] by simp
  then have "x - x / 2 ^ 53 \<le> fl x" by linarith
  moreover have "x * (1 - 1 / 2 ^ 53) = x - x / 2 ^ 53" by (simp add: right_diff_distrib)
  ultimately show ?thesis by simp
qed

text \<open>Integers below \<open>2^53\<close> are doubles: rounding leaves them alone.\<close>

lemma pow2_nonpos: "e \<le> 0 \<Longrightarrow> pow2 e = 1 / 2 ^ nat (- e)"
  by (cases "e = 0") (simp_all add: pow2_def)

lemma round_half_even_of_int: "round_half_even (of_int m) = m"
  by (simp add: round_half_even_def)

lemma expo_of_int_le:
  assumes "\<bar>n\<bar> < 2 ^ 53"
  shows "expo (of_int n) \<le> 52"
proof -
  have q: "quotient_of \<bar>of_int n :: rat\<bar> = (\<bar>n\<bar>, 1)"
    by (simp flip: of_int_abs)
  have "bitlen \<bar>n\<bar> \<le> 53" using assms by (simp add: bitlen_le_iff_power)
  moreover have "bitlen 1 = 1" by (simp add: bitlen_alt_def)
  ultimately show ?thesis
    by (simp add: expo_def q Let_def)
qed

lemma fl_of_int:
  assumes "\<bar>n\<bar> < 2 ^ 53"
  shows "fl (of_int n) = of_int n"
proof (cases "n = 0")
  case True
  then show ?thesis by (simp add: fl_def)
next
  case False
  let ?e = "expo (of_int n) - 52"
  let ?k = "nat (- ?e)"
  have e: "?e \<le> 0" using expo_of_int_le [OF assms] by simp
  have "(of_int n :: rat) / pow2 ?e = of_int (n * 2 ^ ?k)"
    by (simp add: pow2_nonpos [OF e])
  then have "round_half_even (of_int n / pow2 ?e) = n * 2 ^ ?k"
    by (simp only: round_half_even_of_int)
  then have "of_int (round_half_even (of_int n / pow2 ?e)) * pow2 ?e = (of_int n :: rat)"
    by (simp add: pow2_nonpos [OF e])
  then show ?thesis using False by (simp add: fl_def Let_def)
qed

lemma fl_numeral: "(numeral k :: int) < 2 ^ 53 \<Longrightarrow> fl (numeral k) = numeral k"
  using fl_of_int [of "numeral k"] by simp

lemma fl_zero: "fl 0 = 0"
  by (simp add: fl_def)

lemma fl_one: "fl 1 = 1"
  using fl_of_int [of 1] by simp

text \<open>
  The doubles that the literals \<^verbatim>\<open>0.1\<close>, \<^verbatim>\<open>0.05\<close>, \<^verbatim>\<open>0.15\<close> and \<^verbatim>\<open>0.4\<close>
  denote, and the bomb probability at every level.
\<close>

lemma fl_15_100: "fl (3 / 20) = 5404319552844595 / 2 ^ 55"
  by code_simp

lemma fl_1_10: "fl (1 / 10) = 3602879701896397 / 2 ^ 55"
  by code_simp

lemma fl_1_20: "fl (1 / 20) = 3602879701896397 / 2 ^ 56"
  by code_simp

lemma fl_2_5: "fl (2 / 5) = 3602879701896397 / 2 ^ 53"
  by code_simp

lemma bombChance_capped:
  assumes "7 \<le> lvl"
  shows "bombChance lvl = fl (4 / 10)"
proof -
  let ?a = "of_int lvl * fl (5 / 100) :: rat"
  let ?z = "fl (1 / 10) + fl ?a"
  have "(7::rat) \<le> of_int lvl" using assms by simp
  then have "7 * fl (1 / 20) \<le> of_int lvl * fl (1 / 20)"
    by (intro mult_right_mono) (simp_all add: fl_1_20)
  then have a: "7 / 20 \<le> ?a" by (simp add: fl_1_20)
  then have "?a * (1 - 1 / 2 ^ 53) \<le> fl ?a" by (intro fl_lower) simp
  then have fa: "34 / 100 \<le> fl ?a" using a by simp
  then have z: "44 / 100 \<le> ?z" by (simp add: fl_1_10)
  then have "?z * (1 - 1 / 2 ^ 53) \<le> fl ?z" by (intro fl_lower) simp
  then have "43 / 100 \<le> fl ?z" using z by simp
  then have "fl (4 / 10) \<le> fl ?z" by (simp add: fl_2_5)
  then show ?thesis by (simp add: bombChance_def fadd_def fmul_def min_def)
qed

lemma bombChance_table:
  "bombChance 1 = 5404319552844596 / 2 ^ 55"
  "bombChance 2 = 3602879701896397 / 2 ^ 54"
  "bombChance 3 = 1 / 4"
  "bombChance 4 = 5404319552844596 / 2 ^ 54"
  "bombChance 5 = 3152519739159347 / 2 ^ 53"
  "bombChance 6 = 3602879701896397 / 2 ^ 53"
  by code_simp+

lemma bombChance_near_exact:
  assumes "1 \<le> lvl"
  shows "\<bar>bombChance lvl - min (1 / 10 + of_int lvl * (5 / 100)) (4 / 10)\<bar> \<le> 1 / 2 ^ 54"
proof -
  consider "lvl = 1" | "lvl = 2" | "lvl = 3" | "lvl = 4" | "lvl = 5" | "lvl = 6" | "7 \<le> lvl"
    using assms by linarith
  then show ?thesis
  proof cases
    case 7
    then have "(7::rat) \<le> of_int lvl" by simp
    then have "min (1 / 10 + of_int lvl * (5 / 100)) (4 / 10) = (4 / 10 :: rat)" by simp
    then show ?thesis using bombChance_capped [OF 7] by (simp add: fl_2_5)
  qed (simp_all add: bombChance_table)
qed

section \<open>The collision scan\<close>

lemmas small_defs = updateUI_def setBasketZone_def requestAnimationFrame_def setInterval_def
  stop_def resetGame_def gameOver_def levelUp_def Let_def

lemma collideItem_cases:
  "collideItem h i w =
     (if collides h (basketZone w) (items w ! i) then handleCatch (items w ! i) i w else w)"
  by (simp add: collideItem_def collides_def Let_def)

lemma handleCatch_fields [simp]:
  "items (handleCatch it i w) = splice1 i (items w)"
  "basketZone (handleCatch it i w) = basketZone w"
  "lives (handleCatch it i w) = lives w"
  "level (handleCatch it i w) = level w"
  "timeLeft (handleCatch it i w) = timeLeft w"
  "baseSpeed (handleCatch it i w) = baseSpeed w"
  "spawnInterval (handleCatch it i w) = spawnInterval w"
  "score (handleCatch it i w) = (if isBomb it then score w else score w + item_score it)"
  "state (handleCatch it i w) = (if isBomb it then GAMEOVER else state w)"
  by (simp_all add: handleCatch_def isBomb_def small_defs)

lemma collideFrom_fields [simp]:
  "basketZone (collideFrom h n w) = basketZone w"
  "lives (collideFrom h n w) = lives w"
  "level (collideFrom h n w) = level w"
  "timeLeft (collideFrom h n w) = timeLeft w"
  "baseSpeed (collideFrom h n w) = baseSpeed w"
  "spawnInterval (collideFrom h n w) = spawnInterval w"
  by (induction n arbitrary: w; simp add: collideItem_cases)+

text \<open>
  The scan never reads \<^verbatim>\<open>this.items[i]\<close> out of range: a catch at index \<open>i\<close> leaves
  the items below \<open>i\<close> where they are.
\<close>

lemma collideItem_keeps_lower_items:
  assumes "i < length (items w)"
  shows "take i (items (collideItem h i w)) = take i (items w) \<and>
     i \<le> length (items (collideItem h i w))"
proof (cases "collides h (basketZone w) (items w ! i)")
  case True
  then show ?thesis using assms by (simp add: collideItem_cases splice1_def)
next
  case False
  then show ?thesis using assms by (simp add: collideItem_cases)
qed

lemma collideFrom_Suc_hit:
  assumes "n < length (items w)" "collides h (basketZone w) (items w ! n)"
  shows "take n (items (collideItem h n w)) = take n (items w)"
    and "drop n (items (collideItem h n w)) = drop (Suc n) (items w)"
    and "n \<le> length (items (collideItem h n w))"
  using assms by (simp_all add: collideItem_cases splice1_def)

lemma items_collideFrom:
  "n \<le> length (items w) \<Longrightarrow>
   items (collideFrom h n w) =
     filter (\<lambda>it. \<not> collides h (basketZone w) it) (take n (items w)) @ drop n (items w)"
proof (induction n arbitrary: w)
  case 0
  then show ?case by simp
next
  case (Suc n)
  let ?w1 = "collideItem h n w"
  have len: "n < length (items w)" using Suc.prems by simp
  show ?case
  proof (cases "collides h (basketZone w) (items w ! n)")
    case True
    have "items (collideFrom h n ?w1) =
        filter (\<lambda>it. \<not> collides h (basketZone ?w1) it) (take n (items ?w1)) @ drop n (items ?w1)"
      by (rule Suc.IH) (rule collideFrom_Suc_hit [OF len True])
    then show ?thesis using True len
      by (simp add: collideFrom_Suc_hit [OF len True] take_Suc_conv_app_nth)
        (simp add: collideItem_cases)
  next
    case False
    then have w1: "?w1 = w" by (simp add: collideItem_cases)
    have "items (collideFrom h n w) =
        filter (\<lambda>it. \<not> collides h (basketZone w) it) (take n (items w)) @ drop n (items w)"
      using Suc.IH [of w] len by simp
    then show ?thesis using False len w1
      by (simp add: take_Suc_conv_app_nth Cons_nth_drop_Suc)
  qed
qed

lemma score_collideFrom:
  "n \<le> length (items w) \<Longrightarrow>
   score (collideFrom h n w) =
     score w + sum_list (map item_score
       (filter (\<lambda>it. collides h (basketZone w) it \<and> \<not> isBomb it) (take n (items w))))"
proof (induction n arbitrary: w)
  case 0
  then show ?case by simp
next
  case (Suc n)
  let ?w1 = "collideItem h n w"
  have len: "n < length (items w)" using Suc.prems by simp
  show ?case
  proof (cases "collides h (basketZone w) (items w ! n)")
    case True
    have "score (collideFrom h n ?w1) =
        score ?w1 + sum_list (map item_score
          (filter (\<lambda>it. collides h (basketZone ?w1) it \<and> \<not> isBomb it) (take n (items ?w1))))"
      by (rule Suc.IH) (rule collideFrom_Suc_hit [OF len True])
    then show ?thesis using True len
      by (simp add: collideFrom_Suc_hit [OF len True] take_Suc_conv_app_nth)
        (simp add: collideItem_cases)
  next
    case False
    then have w1: "?w1 = w" by (simp add: collideItem_cases)
    have "score (collideFrom h n w) =
        score w + sum_list (map item_score
          (filter (\<lambda>it. collides h (basketZone w) it \<and> \<not> isBomb it) (take n (items w))))"
      using Suc.IH [of w] len by simp
    then show ?thesis using False len w1
      by (simp add: take_Suc_conv_app_nth)
  qed
qed

lemma collideFrom_no_hit:
  "n \<le> length (items w) \<Longrightarrow> \<forall>it \<in> set (take n (items w)). \<not> collides h (basketZone w) it \<Longrightarrow>
   collideFrom h n w = w"
proof (induction n arbitrary: w)
  case 0
  then show ?case by simp
next
  case (Suc n)
  then have len: "n < length (items w)" by simp
  then have "items w ! n \<in> set (take (Suc n) (items w))"
    by (simp add: take_Suc_conv_app_nth)
  then have "collideItem h n w = w" using Suc.prems(2) by (simp add: collideItem_cases)
  moreover have "\<forall>it \<in> set (take n (items w)). \<not> collides h (basketZone w) it"
    using Suc.prems(2) len by (simp add: take_Suc_conv_app_nth)
  ultimately show ?case using Suc.IH [of w] len by simp
qed


section \<open>The motion pass\<close>

lemma handleMiss_fields [simp]:
  "items (handleMiss it i w) = splice1 i (items w)"
  "basketZone (handleMiss it i w) = basketZone w"
  "score (handleMiss it i w) = score w"
  "level (handleMiss it i w) = level w"
  "timeLeft (handleMiss it i w) = timeLeft w"
  "baseSpeed (handleMiss it i w) = baseSpeed w"
  "spawnInterval (handleMiss it i w) = spawnInterval w"
  "lives (handleMiss it i w) = (if isBomb it then lives w else lives w - 1)"
  "state (handleMiss it i w) = (if \<not> isBomb it \<and> lives w - 1 \<le> 0 then GAMEOVER else state w)"
  by (simp_all add: handleMiss_def isBomb_def small_defs)

lemma moveItem_cases:
  "moveItem h k w =
     (let it = moved (baseSpeed w) (items w ! k); w' = w\<lparr>items := (items w)[k := it]\<rparr>
      in if h < item_y (items w ! k) + baseSpeed w then handleMiss it k w' else w')"
  by (simp add: moveItem_def moved_def Let_def)

lemma moveItem_fields [simp]:
  "basketZone (moveItem h k w) = basketZone w"
  "score (moveItem h k w) = score w"
  "level (moveItem h k w) = level w"
  "timeLeft (moveItem h k w) = timeLeft w"
  "baseSpeed (moveItem h k w) = baseSpeed w"
  "spawnInterval (moveItem h k w) = spawnInterval w"
  by (simp_all add: moveItem_cases Let_def)

lemma forEachItems_fields [simp]:
  "basketZone (forEachItems h k n w) = basketZone w"
  "score (forEachItems h k n w) = score w"
  "level (forEachItems h k n w) = level w"
  "timeLeft (forEachItems h k n w) = timeLeft w"
  "baseSpeed (forEachItems h k n w) = baseSpeed w"
  "spawnInterval (forEachItems h k n w) = spawnInterval w"
  by (induction n arbitrary: k w; simp)+

lemma forEachItems_quiet:
  "k + n = length (items w) \<Longrightarrow>
   \<forall>it \<in> set (drop k (items w)). item_y it + baseSpeed w \<le> h \<Longrightarrow>
   forEachItems h k n w =
     w\<lparr>items := take k (items w) @ map (moved (baseSpeed w)) (drop k (items w))\<rparr>"
proof (induction n arbitrary: k w)
  case 0
  then show ?case by simp
next
  case (Suc n)
  let ?xs = "items w"
  let ?m = "moved (baseSpeed w) (?xs ! k)"
  let ?w1 = "w\<lparr>items := ?xs[k := ?m]\<rparr>"
  have len: "k < length ?xs" using Suc.prems(1) by simp
  have split: "drop k ?xs = ?xs ! k # drop (Suc k) ?xs"
    using len by (simp add: Cons_nth_drop_Suc)
  have "item_y (?xs ! k) + baseSpeed w \<le> h" using Suc.prems(2) split by simp
  then have step: "moveItem h k w = ?w1" by (simp add: moveItem_cases Let_def)
  have "forEachItems h (Suc k) n ?w1 =
      ?w1\<lparr>items := take (Suc k) (items ?w1) @
          map (moved (baseSpeed ?w1)) (drop (Suc k) (items ?w1))\<rparr>"
    by (rule Suc.IH) (use Suc.prems split in simp_all)
  then show ?case using len step split
    by (simp add: take_Suc_conv_app_nth)
qed

lemma updateItems_quiet:
  "\<forall>it \<in> set (items w). item_y it + baseSpeed w \<le> h \<Longrightarrow>
   updateItems h w = w\<lparr>items := map (moved (baseSpeed w)) (items w)\<rparr>"
  using forEachItems_quiet [of 0 "length (items w)" w h] by (simp add: updateItems_def)

lemma checkCollisions_quiet:
  "\<forall>it \<in> set (items w). \<not> collides h (basketZone w) it \<Longrightarrow> checkCollisions h w = w"
  using collideFrom_no_hit [of "length (items w)" w h] by (simp add: checkCollisions_def)

lemma loop_quiet:
  assumes "state w = RUNNING"
    and "\<not> of_int (spawnInterval w) < fsub timestamp (lastSpawnTime w)"
    and "\<forall>it \<in> set (items w). item_y it + baseSpeed w \<le> h"
    and "\<forall>it \<in> set (items w). \<not> collides h (basketZone w) (moved (baseSpeed w) it)"
  shows "loop timestamp h d w =
     requestAnimationFrame
       (w\<lparr>lastTime := Some timestamp, items := map (moved (baseSpeed w)) (items w)\<rparr>)"
proof -
  let ?w1 = "w\<lparr>lastTime := Some timestamp\<rparr>"
  have sp: "spawnSystem timestamp d ?w1 = ?w1" using assms(2) by (simp add: spawnSystem_def)
  have up: "updateItems h ?w1 = ?w1\<lparr>items := map (moved (baseSpeed w)) (items w)\<rparr>"
    using updateItems_quiet [of ?w1 h] assms(3) by simp
  have ck: "checkCollisions h (?w1\<lparr>items := map (moved (baseSpeed w)) (items w)\<rparr>) =
      ?w1\<lparr>items := map (moved (baseSpeed w)) (items w)\<rparr>"
    by (rule checkCollisions_quiet) (use assms(4) in simp)
  show ?thesis using assms(1) by (simp add: loop_def Let_def sp up ck)
qed


section \<open>Invariants of the reachable states\<close>

lemma forEachItems_pres:
  assumes step: "\<And>k w. P w \<Longrightarrow> k < length (items w) \<Longrightarrow> P (moveItem h k w)"
    and init: "P w"
  shows "P (forEachItems h k n w)"
  using init by (induction n arbitrary: k w) (simp_all add: step)

lemma collideFrom_pres:
  assumes step: "\<And>i w. P w \<Longrightarrow> P (collideItem h i w)"
    and init: "P w"
  shows "P (collideFrom h n w)"
  using init by (induction n arbitrary: w) (simp_all add: step)

lemma set_splice1: "set (splice1 i xs) \<subseteq> set xs"
  by (auto simp: splice1_def dest: in_set_takeD in_set_dropD)

lemma scoresOk_moveItem: "scoresOk w \<Longrightarrow> k < length (items w) \<Longrightarrow> scoresOk (moveItem h k w)"
proof -
  assume ok: "scoresOk w" and len: "k < length (items w)"
  let ?it = "moved (baseSpeed w) (items w ! k)"
  have "0 \<le> item_score ?it" using ok len by (simp add: scoresOk_def moved_def)
  then have upd: "\<forall>it \<in> set ((items w)[k := ?it]). 0 \<le> item_score it"
    using ok set_update_subset_insert [of "items w" k ?it] by (auto simp: scoresOk_def)
  then have "\<forall>it \<in> set (splice1 k ((items w)[k := ?it])). 0 \<le> item_score it"
    using set_splice1 [of k "(items w)[k := ?it]"] by blast
  with upd show ?thesis by (simp add: scoresOk_def moveItem_cases Let_def)
qed

lemma scoresOk_collideItem: "scoresOk w \<Longrightarrow> scoresOk (collideItem h i w)"
  using set_splice1 [of i "items w"] by (auto simp: scoresOk_def collideItem_cases)

lemma livesOk_moveItem: "livesOk w \<Longrightarrow> livesOk (moveItem h k w)"
  by (auto simp: livesOk_def moveItem_cases Let_def)

lemma livesOk_collideItem: "livesOk w \<Longrightarrow> livesOk (collideItem h i w)"
  by (auto simp: livesOk_def collideItem_cases)

lemma lives_moveItem_le: "lives (moveItem h k w) \<le> lives w"
  by (simp add: moveItem_cases Let_def)

lemma lives_forEachItems_le: "lives (forEachItems h k n w) \<le> lives w"
proof (induction n arbitrary: k w)
  case 0
  then show ?case by simp
next
  case (Suc n)
  show ?case
    using Suc.IH [of "Suc k" "moveItem h k w"] Suc.IH [of "Suc k" w] lives_moveItem_le [of h k w]
    by (cases "k < length (items w)") simp_all
qed

lemma pick_mem:
  assumes "pick xs r = Some x"
  shows "x \<in> set xs"
proof -
  let ?i = "\<lfloor>fmul r (of_nat (length xs))\<rfloor>"
  from assms have rng: "0 \<le> ?i" "?i < int (length xs)" and x: "x = xs ! nat ?i"
    by (auto simp: pick_def Let_def split: if_splits)
  from rng have "nat ?i < length xs" by linarith
  then show ?thesis using x by simp
qed

lemma itemTypes_score: "t \<in> set itemTypes \<Longrightarrow> 0 \<le> kind_score t"
  by (auto simp: itemTypes_def)

lemma spawnItem_fields [simp]:
  "score (spawnItem d w) = score w"
  "level (spawnItem d w) = level w"
  "lives (spawnItem d w) = lives w"
  "state (spawnItem d w) = state w"
  "timeLeft (spawnItem d w) = timeLeft w"
  "baseSpeed (spawnItem d w) = baseSpeed w"
  "spawnInterval (spawnItem d w) = spawnInterval w"
  "basketZone (spawnItem d w) = basketZone w"
  by (simp_all add: spawnItem_def Let_def split: option.splits)

lemma scoresOk_spawnItem: "scoresOk w \<Longrightarrow> scoresOk (spawnItem d w)"
proof -
  assume ok: "scoresOk w"
  have bomb: "find (\<lambda>i. kind_type i = ''bomb'') itemTypes = Some t \<Longrightarrow> 0 \<le> kind_score t" for t
    by (auto simp: find_Some_iff intro: itemTypes_score)
  have fruit: "pick (filter (\<lambda>i. kind_type i \<noteq> ''bomb'') itemTypes) r = Some t \<Longrightarrow> 0 \<le> kind_score t"
    for r t using pick_mem [of "filter (\<lambda>i. kind_type i \<noteq> ''bomb'') itemTypes" r t]
    by (auto intro: itemTypes_score)
  show ?thesis using ok bomb fruit
    by (auto simp: scoresOk_def spawnItem_def Let_def split: option.splits if_splits)
qed


lemma js_rem_0_iff: "js_rem a b = 0 \<longleftrightarrow> \<bar>a\<bar> mod \<bar>b\<bar> = 0"
  by (auto simp: js_rem_def sgn_if)

lemma timerCallback_fields [simp]:
  "score (timerCallback w) = score w"
  "lives (timerCallback w) = lives w"
  "items (timerCallback w) = items w"
  "basketZone (timerCallback w) = basketZone w"
  "timeLeft (timerCallback w) = timeLeft w - 1"
  by (simp_all add: timerCallback_def small_defs)

lemma timerCallback_level:
  "level (timerCallback w) =
     (if js_rem (60 - (timeLeft w - 1)) 20 = 0 \<and> timeLeft w - 1 \<noteq> 60 then level w + 1 else level w)"
  "baseSpeed (timerCallback w) =
     (if js_rem (60 - (timeLeft w - 1)) 20 = 0 \<and> timeLeft w - 1 \<noteq> 60 then baseSpeed w + 1
      else baseSpeed w)"
  "spawnInterval (timerCallback w) =
     (if js_rem (60 - (timeLeft w - 1)) 20 = 0 \<and> timeLeft w - 1 \<noteq> 60
      then max 500 (2000 - (level w + 1 - 1) * 300) else spawnInterval w)"
  by (simp_all add: timerCallback_def small_defs)

lemma timerCallback_state:
  "state (timerCallback w) = (if timeLeft w - 1 \<le> 0 then GAMEOVER else state w)"
  "overlayDesc (page (timerCallback w)) =
     (if timeLeft w - 1 \<le> 0 then ''Time's Up!'' else overlayDesc (page w))"
  by (simp_all add: timerCallback_def small_defs)

lemma run_append: "run (es @ fs) w = run fs (run es w)"
  by (induction es arbitrary: w) simp_all

lemma run_replicate_Suc: "run (replicate (Suc n) e) w = run (replicate n e) (fire e w)"
  by simp


lemma spawnSystem_fields [simp]:
  "score (spawnSystem t d w) = score w"
  "level (spawnSystem t d w) = level w"
  "lives (spawnSystem t d w) = lives w"
  "state (spawnSystem t d w) = state w"
  "timeLeft (spawnSystem t d w) = timeLeft w"
  "baseSpeed (spawnSystem t d w) = baseSpeed w"
  "spawnInterval (spawnSystem t d w) = spawnInterval w"
  "basketZone (spawnSystem t d w) = basketZone w"
  by (simp_all add: spawnSystem_def)

lemma scoresOk_spawnSystem: "scoresOk w \<Longrightarrow> scoresOk (spawnSystem t d w)"
  using scoresOk_spawnItem [of w d] by (simp add: spawnSystem_def scoresOk_def)

lemma scoresOk_updateItems: "scoresOk w \<Longrightarrow> scoresOk (updateItems h w)"
  unfolding updateItems_def by (rule forEachItems_pres) (simp_all add: scoresOk_moveItem)

lemma scoresOk_checkCollisions: "scoresOk w \<Longrightarrow> scoresOk (checkCollisions h w)"
  unfolding checkCollisions_def by (rule collideFrom_pres) (simp_all add: scoresOk_collideItem)

lemma livesOk_updateItems: "livesOk w \<Longrightarrow> livesOk (updateItems h w)"
  unfolding updateItems_def by (rule forEachItems_pres) (simp_all add: livesOk_moveItem)

lemma livesOk_checkCollisions: "livesOk w \<Longrightarrow> livesOk (checkCollisions h w)"
  unfolding checkCollisions_def by (rule collideFrom_pres) (simp_all add: livesOk_collideItem)

lemma score_checkCollisions_ge: "scoresOk w \<Longrightarrow> score w \<le> score (checkCollisions h w)"
proof -
  assume ok: "scoresOk w"
  let ?caught = "filter (\<lambda>it. collides h (basketZone w) it \<and> \<not> isBomb it) (items w)"
  have "\<And>x. x \<in> set (map item_score ?caught) \<Longrightarrow> 0 \<le> x"
    using ok by (auto simp: scoresOk_def)
  then have "0 \<le> sum_list (map item_score ?caught)" by (rule sum_list_nonneg)
  then show ?thesis
    using score_collideFrom [of "length (items w)" w h] by (simp add: checkCollisions_def)
qed

lemma updateItems_fields [simp]:
  "basketZone (updateItems h w) = basketZone w"
  "score (updateItems h w) = score w"
  "level (updateItems h w) = level w"
  "timeLeft (updateItems h w) = timeLeft w"
  "baseSpeed (updateItems h w) = baseSpeed w"
  "spawnInterval (updateItems h w) = spawnInterval w"
  by (simp_all add: updateItems_def)

lemma checkCollisions_fields [simp]:
  "basketZone (checkCollisions h w) = basketZone w"
  "lives (checkCollisions h w) = lives w"
  "level (checkCollisions h w) = level w"
  "timeLeft (checkCollisions h w) = timeLeft w"
  "baseSpeed (checkCollisions h w) = baseSpeed w"
  "spawnInterval (checkCollisions h w) = spawnInterval w"
  by (simp_all add: checkCollisions_def)

lemma loop_fields [simp]:
  "basketZone (loop t h d w) = basketZone w"
  "level (loop t h d w) = level w"
  "timeLeft (loop t h d w) = timeLeft w"
  "baseSpeed (loop t h d w) = baseSpeed w"
  "spawnInterval (loop t h d w) = spawnInterval w"
  by (simp_all add: loop_def Let_def requestAnimationFrame_def)

lemma scoresOk_cong: "items w' = items w \<Longrightarrow> scoresOk w' = scoresOk w"
  by (simp add: scoresOk_def)

lemma livesOk_cong: "state w' = state w \<Longrightarrow> lives w' = lives w \<Longrightarrow> livesOk w' = livesOk w"
  by (simp add: livesOk_def)

lemma scoresOk_loop: "scoresOk w \<Longrightarrow> scoresOk (loop t h d w)"
proof -
  assume ok: "scoresOk w"
  let ?w0 = "w\<lparr>lastTime := Some t\<rparr>"
  have "scoresOk ?w0" using ok by (simp add: scoresOk_def)
  then have "scoresOk (checkCollisions h (updateItems h (spawnSystem t d ?w0)))"
    by (intro scoresOk_checkCollisions scoresOk_updateItems scoresOk_spawnSystem)
  then have "scoresOk (requestAnimationFrame (checkCollisions h (updateItems h (spawnSystem t d ?w0))))"
    by (simp add: scoresOk_def requestAnimationFrame_def)
  then show ?thesis using ok by (simp add: loop_def Let_def)
qed

lemma livesOk_loop: "livesOk w \<Longrightarrow> livesOk (loop t h d w)"
proof -
  assume ok: "livesOk w"
  let ?w0 = "w\<lparr>lastTime := Some t\<rparr>"
  have "livesOk ?w0" using ok by (simp add: livesOk_def)
  then have "livesOk (spawnSystem t d ?w0)" by (simp add: livesOk_def)
  then have "livesOk (checkCollisions h (updateItems h (spawnSystem t d ?w0)))"
    by (intro livesOk_checkCollisions livesOk_updateItems)
  then have "livesOk (requestAnimationFrame (checkCollisions h (updateItems h (spawnSystem t d ?w0))))"
    by (simp add: livesOk_def requestAnimationFrame_def)
  then show ?thesis using ok by (simp add: loop_def Let_def)
qed

lemma score_loop_ge: "scoresOk w \<Longrightarrow> score w \<le> score (loop t h d w)"
proof -
  assume ok: "scoresOk w"
  let ?w0 = "w\<lparr>lastTime := Some t\<rparr>"
  let ?w2 = "updateItems h (spawnSystem t d ?w0)"
  have "scoresOk ?w0" using ok by (simp add: scoresOk_def)
  then have "scoresOk ?w2" by (intro scoresOk_updateItems scoresOk_spawnSystem)
  then have "score ?w2 \<le> score (checkCollisions h ?w2)" by (rule score_checkCollisions_ge)
  then show ?thesis by (simp add: loop_def Let_def requestAnimationFrame_def)
qed

lemma sessionInv_init: "sessionInv (GameEngine d)"
  by (simp add: sessionInv_def scoresOk_def livesOk_def GameEngine_def)

lemma sessionInv_fire: "sessionInv w \<Longrightarrow> sessionInv (fire e w)"
proof (cases e)
  case (Start now)
  assume "sessionInv w"
  then show ?thesis using Start
    by (simp add: sessionInv_def scoresOk_def livesOk_def start_def small_defs)
next
  case Stop
  assume "sessionInv w"
  then show ?thesis using Stop by (simp add: sessionInv_def scoresOk_def livesOk_def stop_def)
next
  case (SetBasketZone z)
  assume "sessionInv w"
  then show ?thesis using SetBasketZone
    by (simp add: sessionInv_def scoresOk_def livesOk_def setBasketZone_def Let_def)
next
  case (Frame k t h d)
  assume iw: "sessionInv w"
  let ?w0 = "w\<lparr>pendingFrames := pendingFrames w - {k}\<rparr>"
  have "scoresOk ?w0" "livesOk ?w0" using iw by (simp_all add: sessionInv_def scoresOk_def livesOk_def)
  then have "scoresOk (loop t h d ?w0)" "livesOk (loop t h d ?w0)"
    by (simp_all add: scoresOk_loop livesOk_loop)
  then show ?thesis using Frame iw by (simp add: sessionInv_def)
next
  case (Timer k)
  assume iw: "sessionInv w"
  have "scoresOk (timerCallback w)" using iw by (simp add: sessionInv_def scoresOk_def)
  moreover have "livesOk (timerCallback w)"
    using iw by (simp add: sessionInv_def livesOk_def timerCallback_state)
  moreover have "500 \<le> spawnInterval (timerCallback w)"
    using iw by (simp add: sessionInv_def timerCallback_level)
  ultimately show ?thesis using Timer iw by (simp add: sessionInv_def)
qed

lemma reachable_sessionInv: "reachable d w \<Longrightarrow> sessionInv w"
  by (induction rule: reachable.induct) (simp_all add: sessionInv_init sessionInv_fire)

lemma reachable_run: "reachable d w \<Longrightarrow> reachable d (run es w)"
  by (induction es arbitrary: w) (simp_all add: reachable_fire)

lemma score_fire_ge: "scoresOk w \<Longrightarrow> \<not> isStart e \<Longrightarrow> score w \<le> score (fire e w)"
proof (cases e)
  case (Frame k t h d)
  assume ok: "scoresOk w"
  let ?w0 = "w\<lparr>pendingFrames := pendingFrames w - {k}\<rparr>"
  have "scoresOk ?w0" using ok by (simp add: scoresOk_def)
  then have "score ?w0 \<le> score (loop t h d ?w0)" by (rule score_loop_ge)
  then show ?thesis using Frame by simp
qed (simp_all add: stop_def setBasketZone_def Let_def)

lemma level_fire_ge:
  "\<not> isStart e \<Longrightarrow> level w \<le> level (fire e w) \<and> baseSpeed w \<le> baseSpeed (fire e w)"
  by (cases e) (simp_all add: stop_def setBasketZone_def Let_def timerCallback_level)

lemma levelUpDue_js: "levelUpDue t \<Longrightarrow> js_rem (60 - t) 20 = 0 \<and> t \<noteq> 60"
  by (auto simp: levelUpDue_def js_rem_0_iff abs_if)

lemma timerCallback_quiet:
  "\<not> (js_rem (60 - (timeLeft w - 1)) 20 = 0 \<and> timeLeft w - 1 \<noteq> 60) \<Longrightarrow> 0 < timeLeft w - 1 \<Longrightarrow>
   timerCallback w = updateUI (w\<lparr>timeLeft := timeLeft w - 1\<rparr>)"
  by (auto simp: timerCallback_def Let_def updateUI_def)

section \<open>After the end of a session\<close>

lemma fire_not_running:
  "state w \<noteq> RUNNING \<Longrightarrow> \<not> isStart e \<Longrightarrow>
   items (fire e w) = items w \<and> state (fire e w) \<noteq> RUNNING"
  by (cases e) (simp_all add: stop_def setBasketZone_def Let_def loop_def timerCallback_state)

lemma run_not_running:
  "state w \<noteq> RUNNING \<Longrightarrow> \<forall>e \<in> set es. \<not> isStart e \<Longrightarrow>
   items (run es w) = items w \<and> state (run es w) \<noteq> RUNNING"
proof (induction es arbitrary: w)
  case Nil
  then show ?case by simp
next
  case (Cons e es)
  then have "items (fire e w) = items w" "state (fire e w) \<noteq> RUNNING"
    using fire_not_running [of w e] by simp_all
  then show ?case using Cons.IH [of "fire e w"] Cons.prems(2) by simp
qed

section \<open>A caught bomb\<close>

lemma collides_iff_overlap:
  "collides h zone it \<longleftrightarrow>
     (\<exists>v. item_y it \<le> v \<and> v \<le> item_y it + 50 \<and> h - 100 \<le> v \<and> v \<le> h - 20) \<and>
     item_zone it = zone"
proof -
  have "(\<exists>v. item_y it \<le> v \<and> v \<le> item_y it + 50 \<and> h - 100 \<le> v \<and> v \<le> h - 20) \<longleftrightarrow>
      h - 100 \<le> item_y it + 50 \<and> item_y it \<le> h - 20"
  proof
    assume "h - 100 \<le> item_y it + 50 \<and> item_y it \<le> h - 20"
    then have "item_y it \<le> max (item_y it) (h - 100) \<and> max (item_y it) (h - 100) \<le> item_y it + 50 \<and>
        h - 100 \<le> max (item_y it) (h - 100) \<and> max (item_y it) (h - 100) \<le> h - 20"
      by simp
    then show "\<exists>v. item_y it \<le> v \<and> v \<le> item_y it + 50 \<and> h - 100 \<le> v \<and> v \<le> h - 20" ..
  qed auto
  then show ?thesis by (auto simp: collides_def)
qed

lemma handleCatch_overlayDesc:
  "overlayDesc (page (handleCatch it i w)) =
     (if isBomb it then ''You caught a Bomb!'' else overlayDesc (page w))"
  by (simp add: handleCatch_def isBomb_def small_defs)

lemma bombOver_collideItem: "bombOver w \<Longrightarrow> bombOver (collideItem h i w)"
  by (simp add: bombOver_def collideItem_cases handleCatch_overlayDesc)

lemma bombOver_collideFrom: "bombOver w \<Longrightarrow> bombOver (collideFrom h n w)"
  by (rule collideFrom_pres) (simp_all add: bombOver_collideItem)

lemma bomb_caught_bombOver:
  "n \<le> length (items w) \<Longrightarrow>
   \<exists>it \<in> set (take n (items w)). collides h (basketZone w) it \<and> isBomb it \<Longrightarrow>
   bombOver (collideFrom h n w)"
proof (induction n arbitrary: w)
  case 0
  then show ?case by simp
next
  case (Suc n)
  let ?it = "items w ! n"
  let ?w1 = "collideItem h n w"
  have len: "n < length (items w)" using Suc.prems(1) by simp
  show ?case
  proof (cases "collides h (basketZone w) ?it")
    case True
    show ?thesis
    proof (cases "isBomb ?it")
      case True
      with \<open>collides h (basketZone w) ?it\<close> have "bombOver ?w1"
        by (simp add: bombOver_def collideItem_cases handleCatch_overlayDesc)
      then show ?thesis by (simp add: bombOver_collideFrom)
    next
      case False
      with Suc.prems(2) len
      have "\<exists>it \<in> set (take n (items w)). collides h (basketZone w) it \<and> isBomb it"
        by (auto simp: take_Suc_conv_app_nth)
      then have "\<exists>it \<in> set (take n (items ?w1)). collides h (basketZone ?w1) it \<and> isBomb it"
        using collideFrom_Suc_hit(1) [OF len True] by (simp add: collideItem_cases)
      then have "bombOver (collideFrom h n ?w1)"
        using Suc.IH [of ?w1] collideFrom_Suc_hit(3) [OF len True] by simp
      then show ?thesis by simp
    qed
  next
    case False
    then have w1: "?w1 = w" by (simp add: collideItem_cases)
    from False Suc.prems(2) len
    have "\<exists>it \<in> set (take n (items w)). collides h (basketZone w) it \<and> isBomb it"
      by (auto simp: take_Suc_conv_app_nth)
    then have "bombOver (collideFrom h n w)" using Suc.IH [of w] len by simp
    then show ?thesis using w1 by simp
  qed
qed

section \<open>The scenarios evaluated\<close>

lemma fresh_eval:
  "fresh =
     \<lparr>score = 0, level = 1, timeLeft = 60, lives = 3, state = RUNNING,
      basketZone = ''CENTER'', items = [], lastSpawnTime = 0, spawnInterval = 2000,
      baseSpeed = 3, gameLoopId = Some 1, timerInterval = Some 1, lastTime = None,
      page = page0\<lparr>scoreEl := 0, levelEl := 1, timeEl := 60, livesEl := 3,
                     basketLeft := ''calc(50% - 40px)'', overlayHidden := True\<rparr>,
      pendingFrames = {1}, activeIntervals = {1}, nextFrameId = 2, nextTimerId = 2\<rparr>"
  by (simp add: fresh_def start_def GameEngine_def small_defs)

lemma twentiethSecond_eval:
  "twentiethSecond = fresh\<lparr>timeLeft := 41, page := (page fresh)\<lparr>timeEl := 41\<rparr>\<rparr>"
  by (simp add: twentiethSecond_def fresh_def [symmetric] fresh_eval eval_nat_numeral
      timerCallback_quiet js_rem_def updateUI_def)

lemma bombAboveApple_eval:
  "basketZone bombAboveApple = ''LEFT''" "score bombAboveApple = 0" "lives bombAboveApple = 3"
  "items bombAboveApple =
     [\<lparr>item_id = ''a1'', item_type = ''apple'', item_score = 100,
       item_zone = ''LEFT'', item_y = 550\<rparr>,
      \<lparr>item_id = ''p1'', item_type = ''pear'', item_score = 150,
       item_zone = ''RIGHT'', item_y = 505\<rparr>,
      \<lparr>item_id = ''b1'', item_type = ''bomb'', item_score = 0,
       item_zone = ''LEFT'', item_y = 460\<rparr>]"
  by (simp_all add: bombAboveApple_def setBasketZone_def fresh_eval)

lemma lastLife_eval:
  "items lastLife =
     [\<lparr>item_id = ''a1'', item_type = ''apple'', item_score = 100,
       item_zone = ''LEFT'', item_y = 598\<rparr>,
      \<lparr>item_id = ''p1'', item_type = ''pear'', item_score = 150,
       item_zone = ''RIGHT'', item_y = 400\<rparr>,
      \<lparr>item_id = ''o1'', item_type = ''orange'', item_score = 200,
       item_zone = ''LEFT'', item_y = 199\<rparr>]"
  "lives lastLife = 1" "baseSpeed lastLife = 3" "state lastLife = RUNNING"
  "basketZone lastLife = ''CENTER''"
  by (simp_all add: lastLife_def fresh_eval)

lemma lastLife_frame:
  "state (fire (Frame 1 16 600 appleDraws) lastLife) = GAMEOVER"
  "map item_y (items (fire (Frame 1 16 600 appleDraws) lastLife)) = [400, 202]"
  by (simp_all add: lastLife_def fresh_eval loop_def spawnSystem_def fsub_def fl_numeral
      updateItems_def moveItem_cases moved_def handleMiss_def small_defs splice1_def
      checkCollisions_def collideItem_cases collides_def)

lemma twoFalling_eval:
  "items twoFalling =
     [\<lparr>item_id = ''a1'', item_type = ''apple'', item_score = 100,
       item_zone = ''LEFT'', item_y = 598\<rparr>,
      \<lparr>item_id = ''p1'', item_type = ''pear'', item_score = 150,
       item_zone = ''RIGHT'', item_y = 100\<rparr>]"
  "lives twoFalling = 3" "baseSpeed twoFalling = 3" "state twoFalling = RUNNING"
  by (simp_all add: twoFalling_def fresh_eval)

lemma spawn_apple:
  "level w = 1 \<Longrightarrow> spawnItem appleDraws w = w\<lparr>items := items w @ [apple (- 50)]\<rparr>"
  by (simp add: spawnItem_def pick_def fmul_def fl_zero bombChance_table(1) appleDraws_def itemTypes_def
      apple_def)

lemma moved_apple: "moved s (apple y) = apple (y + s)"
  by (simp add: moved_def apple_def)

lemma apple_sel:
  "item_y (apple y) = y" "item_zone (apple y) = ''LEFT''" "item_type (apple y) = ''apple''"
  "isBomb (apple y) = False"
  by (simp_all add: apple_def isBomb_def)

lemma crowded_reached: "run (Start 0 # spawnFrames @ fallFrames) (GameEngine page0) = crowded"
  by (simp add: spawnFrames_def fallFrames_def upt_rec start_def small_defs GameEngine_def
      loop_def spawnSystem_def fsub_def fl_numeral fl_zero fl_one spawn_apple updateItems_quiet
      checkCollisions_quiet moved_apple apple_sel collides_def crowded_def)

lemma crowded_collapse:
  "lives (fire collapse crowded) = - 1" "state (fire collapse crowded) = GAMEOVER"
  "items (fire collapse crowded) = [apple 13, apple 7, apple 1]"
  "livesEl (page (fire collapse crowded)) = 0"
  by (simp_all add: collapse_def crowded_def loop_def spawnSystem_def fsub_def fl_numeral
      updateItems_def moveItem_cases handleMiss_def small_defs splice1_def checkCollisions_def
      collideItem_cases collides_def moved_apple apple_sel)

section \<open>The claims\<close>

subsection \<open>C1: lives and score\<close>

text \<open>
  Claim C1, as far as it holds. In every reachable state of a running session the lives
  counter is at least 1, so it is never negative while the session runs; and no frame tick,
  wall-clock tick, lane update or call of \<^verbatim>\<open>stop\<close> reduces the score. (The score of
  every live item is non-negative, because it comes from the table \<open>itemTypes\<close>.)
\<close>

theorem lives_positive_while_running_and_score_monotone:
  "reachable d w \<Longrightarrow>
   (state w = RUNNING \<longrightarrow> 1 \<le> lives w) \<and>
   (\<not> isStart e \<longrightarrow> score w \<le> score (fire e w))"
  using reachable_sessionInv [of d w] score_fire_ge [of w e]
  by (auto simp: sessionInv_def livesOk_def)

theorem lives_positive_while_running_and_score_monotone_witness:
  "reachable page0 crowded \<and> state crowded = RUNNING \<and> 1 \<le> lives crowded \<and>
   \<not> isStart collapse \<and> score crowded \<le> score (fire collapse crowded)"
proof -
  have reach: "reachable page0 crowded"
    unfolding crowded_reached [symmetric] by (rule reachable_run) (rule reachable_init)
  have running: "state crowded = RUNNING" by (simp add: crowded_def)
  have ev: "\<not> isStart collapse" by (simp add: collapse_def)
  show ?thesis
    using lives_positive_while_running_and_score_monotone [OF reach, of collapse]
      reach running ev
    by simp
qed

text \<open>
  Once the session has ended, the lives counter can be below 0 in a reachable state. The
  \<^verbatim>\<open>forEach\<close> of \<^verbatim>\<open>updateItems\<close> goes on after \<^verbatim>\<open>handleMiss\<close> has ended the
  session. In the state \<open>crowded\<close> seven apples are on screen; when the game area collapses,
  the pass misses the apples at the indices 0, 2, 4 and 6 of the original array (those at 1,
  3 and 5 are stepped over as the array shrinks), and the lives go from 3 to -1.
\<close>

theorem lives_negative_counterexample:
  "reachable page0 (run (Start 0 # spawnFrames @ fallFrames @ [collapse]) (GameEngine page0)) \<and>
   lives (run (Start 0 # spawnFrames @ fallFrames @ [collapse]) (GameEngine page0)) = - 1"
proof -
  have "run (Start 0 # spawnFrames @ fallFrames @ [collapse]) (GameEngine page0) =
      fire collapse crowded"
    using crowded_reached by (simp add: run_append)
  moreover have
    "reachable page0 (run (Start 0 # spawnFrames @ fallFrames @ [collapse]) (GameEngine page0))"
    by (rule reachable_run) (rule reachable_init)
  ultimately show ?thesis using crowded_collapse by simp
qed

subsection \<open>C2: lane values\<close>

text \<open>
  Claim C2, as far as it holds. \<^verbatim>\<open>setBasketZone\<close> stores whatever value it is given, a
  valid lane or not; for a value that is not a valid lane the basket is drawn in the centre
  position. A later call with a valid lane stores that lane. Nothing else changes: the call
  writes the basket zone and the position of the basket on the page, and leaves every other
  field of the session (score, level, time left, lives, state, live items, spawn interval,
  fall speed, time of the last spawn), every other element of the page and every registered
  callback and timer as they are.
\<close>

theorem setBasketZone_stores_any_value:
  "basketZone (setBasketZone zone w) = zone \<and>
   basketZone (setBasketZone lane (setBasketZone zone w)) = lane \<and>
   (\<not> isValidLane zone \<longrightarrow>
      basketLeft (page (setBasketZone zone w)) = ''calc(50% - 40px)'') \<and>
   items (setBasketZone zone w) = items w \<and> score (setBasketZone zone w) = score w \<and>
   lives (setBasketZone zone w) = lives w \<and> level (setBasketZone zone w) = level w \<and>
   timeLeft (setBasketZone zone w) = timeLeft w \<and> state (setBasketZone zone w) = state w \<and>
   baseSpeed (setBasketZone zone w) = baseSpeed w \<and>
   spawnInterval (setBasketZone zone w) = spawnInterval w \<and>
   lastSpawnTime (setBasketZone zone w) = lastSpawnTime w \<and>
   setBasketZone zone w = w\<lparr>basketZone := zone, page := page (setBasketZone zone w)\<rparr> \<and>
   page (setBasketZone zone w) =
     (page w)\<lparr>basketLeft := basketLeft (page (setBasketZone zone w))\<rparr>"
  by (simp add: setBasketZone_def isValidLane_def)

theorem setBasketZone_stores_any_value_witness:
  "\<not> isValidLane ''UP'' \<and> basketZone (setBasketZone ''UP'' fresh) = ''UP'' \<and>
   basketLeft (page (setBasketZone ''UP'' fresh)) = ''calc(50% - 40px)'' \<and>
   isValidLane ''RIGHT'' \<and>
   basketZone (setBasketZone ''RIGHT'' (setBasketZone ''UP'' fresh)) = ''RIGHT'' \<and>
   baseSpeed (setBasketZone ''UP'' fresh) = 3 \<and>
   spawnInterval (setBasketZone ''UP'' fresh) = 2000"
  using setBasketZone_stores_any_value [of "''UP''" fresh "''RIGHT''"]
  by (simp add: isValidLane_def fresh_eval)

text \<open>
  An invalid value is not ignored: after \<^verbatim>\<open>setBasketZone("UP")\<close> on a fresh session the
  basket zone is \<^verbatim>\<open>"UP"\<close>, no longer \<^verbatim>\<open>"CENTER"\<close>.
\<close>

theorem setBasketZone_stores_invalid_counterexample:
  "\<not> isValidLane ''UP'' \<and> basketZone fresh = ''CENTER'' \<and>
   basketZone (setBasketZone ''UP'' fresh) = ''UP'' \<and>
   basketZone (fire (SetBasketZone ''UP'') fresh) \<noteq> basketZone fresh"
  by (simp add: isValidLane_def fresh_eval setBasketZone_def)

subsection \<open>C3: a caught bomb\<close>

text \<open>
  Claim C3, as far as it holds. If a bomb is caught during the collision scan of a frame
  tick, the session is over at the end of the scan, with the reason "You caught a Bomb!";
  the bomb adds nothing to the score and no life is deducted. The scan itself visits every
  item: each item that overlaps the catch band in the basket's zone is removed, and each
  such item other than a bomb adds its score.
\<close>

theorem bomb_catch_ends_session_without_stopping_scan:
  assumes "\<exists>it \<in> set (items w). collides h (basketZone w) it \<and> isBomb it"
  shows "state (checkCollisions h w) = GAMEOVER \<and>
     overlayDesc (page (checkCollisions h w)) = ''You caught a Bomb!'' \<and>
     lives (checkCollisions h w) = lives w \<and>
     items (checkCollisions h w) = filter (\<lambda>it. \<not> collides h (basketZone w) it) (items w) \<and>
     score (checkCollisions h w) =
       score w + sum_list (map item_score
         (filter (\<lambda>it. collides h (basketZone w) it \<and> \<not> isBomb it) (items w)))"
  using assms bomb_caught_bombOver [of "length (items w)" w h]
    items_collideFrom [of "length (items w)" w h] score_collideFrom [of "length (items w)" w h]
  by (simp add: checkCollisions_def bombOver_def)

theorem bomb_catch_ends_session_without_stopping_scan_witness:
  "(\<exists>it \<in> set (items bombAboveApple). collides 600 (basketZone bombAboveApple) it \<and> isBomb it) \<and>
   state (checkCollisions 600 bombAboveApple) = GAMEOVER \<and>
   overlayDesc (page (checkCollisions 600 bombAboveApple)) = ''You caught a Bomb!'' \<and>
   lives (checkCollisions 600 bombAboveApple) = 3 \<and>
   items (checkCollisions 600 bombAboveApple) = [items bombAboveApple ! 1] \<and>
   score (checkCollisions 600 bombAboveApple) = 100"
proof -
  have bomb:
    "\<exists>it \<in> set (items bombAboveApple). collides 600 (basketZone bombAboveApple) it \<and> isBomb it"
    by (simp add: bombAboveApple_eval collides_def isBomb_def)
  show ?thesis
    using bomb_catch_ends_session_without_stopping_scan [OF bomb] bomb
    by (simp add: bombAboveApple_eval collides_def isBomb_def)
qed

text \<open>
  The scan does not stop at the bomb. In \<open>bombAboveApple\<close> the bomb at index 2 is caught
  first (state \<open>afterBomb\<close>, the session is over); of the remaining iterations, the one at
  index 0 then removes the apple and adds its 100 points.
\<close>

theorem scan_continues_after_bomb_counterexample:
  "isBomb (items bombAboveApple ! 2) \<and>
   collides 600 (basketZone bombAboveApple) (items bombAboveApple ! 2) \<and>
   state afterBomb = GAMEOVER \<and>
   checkCollisions 600 bombAboveApple = collideFrom 600 2 afterBomb \<and>
   length (items afterBomb) = 2 \<and> length (items (collideFrom 600 2 afterBomb)) = 1 \<and>
   score (collideFrom 600 2 afterBomb) = score afterBomb + 100"
  by (simp add: afterBomb_def checkCollisions_def bombAboveApple_eval collideItem_cases
      collides_def isBomb_def splice1_def eval_nat_numeral)

subsection \<open>C4: the motion pass\<close>

text \<open>
  Claim C4 says that a pass moves every item that is live at its start by the fall speed.
  The pass does not: \<^verbatim>\<open>handleMiss\<close> splices the missed item out of the array while
  \<^verbatim>\<open>forEach\<close> is iterating over it, so the item behind a missed one moves into the index
  just visited and is stepped over. In \<open>twoFalling\<close> the apple falls from 598 to 601, below
  the game area of height 600, and costs a life; the pear behind it stays at 100 instead of
  moving to 103. (\<^verbatim>\<open>checkCollisions\<close> iterates from the end of the array, where a splice
  does no harm; and a pass without a miss moves every item, see \<open>updateItems_quiet\<close>.)
\<close>

theorem item_after_a_miss_is_not_moved:
  "map item_y (items twoFalling) = [598, 100] \<and> baseSpeed twoFalling = 3 \<and>
   lives twoFalling = 3 \<and>
   map item_y (items (updateItems 600 twoFalling)) = [100] \<and>
   map item_type (items (updateItems 600 twoFalling)) = [''pear''] \<and>
   lives (updateItems 600 twoFalling) = 2 \<and>
   state (updateItems 600 twoFalling) = RUNNING"
  by (simp add: updateItems_def twoFalling_eval moveItem_cases moved_def isBomb_def splice1_def
      Let_def)

subsection \<open>C5: a caught fruit\<close>

text \<open>
  Claim C5. After the collision scan of a frame tick, the live items are exactly those that
  did not collide (overlap of the catch band, in the zone of the basket), in their old
  order, and the score has grown by the score of every item that collided and is not a bomb.
  In particular every such item is gone from the live items, and its score has been added
  exactly once.
\<close>

theorem caught_items_removed_and_fruit_scored:
  "items (checkCollisions h w) = filter (\<lambda>it. \<not> collides h (basketZone w) it) (items w) \<and>
   score (checkCollisions h w) =
     score w + sum_list (map item_score
       (filter (\<lambda>it. collides h (basketZone w) it \<and> \<not> isBomb it) (items w))) \<and>
   (\<forall>it \<in> set (items w). collides h (basketZone w) it \<and> \<not> isBomb it \<longrightarrow>
      it \<notin> set (items (checkCollisions h w)))"
  using items_collideFrom [of "length (items w)" w h] score_collideFrom [of "length (items w)" w h]
  by (simp add: checkCollisions_def)

theorem caught_items_removed_and_fruit_scored_witness:
  "items appleInBand ! 0 \<in> set (items appleInBand) \<and>
   collides 600 (basketZone appleInBand) (items appleInBand ! 0) \<and>
   \<not> isBomb (items appleInBand ! 0) \<and>
   items appleInBand ! 0 \<notin> set (items (checkCollisions 600 appleInBand)) \<and>
   items (checkCollisions 600 appleInBand) = [items appleInBand ! 1] \<and>
   score (checkCollisions 600 appleInBand) = score appleInBand + item_score (items appleInBand ! 0)"
  using caught_items_removed_and_fruit_scored [of 600 appleInBand]
  by (simp add: appleInBand_def setBasketZone_def collides_def isBomb_def)

subsection \<open>C6: levels\<close>

text \<open>
  Claim C6. In a reachable state, a wall-clock tick after which \<open>60 - timeLeft\<close> is a
  positive multiple of 20 raises the level by 1 and the fall speed by 1 and sets the spawn
  interval to \<open>max 500 (2000 - (level - 1) * 300)\<close> for the new level. No event other than
  a start lowers the level or the fall speed, and the spawn interval is never below 500.
\<close>

theorem level_up_every_twenty_seconds:
  "reachable d w \<Longrightarrow>
   (k \<in> activeIntervals w \<longrightarrow> levelUpDue (timeLeft (fire (Timer k) w)) \<longrightarrow>
      timeLeft (fire (Timer k) w) = timeLeft w - 1 \<and>
      level (fire (Timer k) w) = level w + 1 \<and>
      baseSpeed (fire (Timer k) w) = baseSpeed w + 1 \<and>
      spawnInterval (fire (Timer k) w) =
        max 500 (2000 - (level (fire (Timer k) w) - 1) * 300)) \<and>
   (\<not> isStart e \<longrightarrow> level w \<le> level (fire e w) \<and> baseSpeed w \<le> baseSpeed (fire e w)) \<and>
   500 \<le> spawnInterval w"
  using reachable_sessionInv [of d w] level_fire_ge [of e w] levelUpDue_js [of "timeLeft w - 1"]
  by (simp add: sessionInv_def timerCallback_level)

theorem level_up_every_twenty_seconds_witness:
  "reachable page0 twentiethSecond \<and> 1 \<in> activeIntervals twentiethSecond \<and>
   levelUpDue (timeLeft (fire (Timer 1) twentiethSecond)) \<and> \<not> isStart (Timer 1) \<and>
   timeLeft (fire (Timer 1) twentiethSecond) = 40 \<and>
   level twentiethSecond = 1 \<and> level (fire (Timer 1) twentiethSecond) = 2 \<and>
   baseSpeed twentiethSecond = 3 \<and> baseSpeed (fire (Timer 1) twentiethSecond) = 4 \<and>
   spawnInterval (fire (Timer 1) twentiethSecond) = 1700 \<and>
   500 \<le> spawnInterval twentiethSecond"
proof -
  have reach: "reachable page0 twentiethSecond"
    unfolding twentiethSecond_def by (rule reachable_run) (rule reachable_init)
  have fields: "1 \<in> activeIntervals twentiethSecond" "timeLeft twentiethSecond = 41"
    "level twentiethSecond = 1" "baseSpeed twentiethSecond = 3"
    by (simp_all add: twentiethSecond_eval fresh_eval)
  have due: "levelUpDue (timeLeft (fire (Timer 1) twentiethSecond))"
    using fields by (simp add: levelUpDue_def)
  show ?thesis
    using level_up_every_twenty_seconds [OF reach, of 1 "Timer 1"] reach fields due by simp
qed

subsection \<open>C7: the end of the countdown\<close>

text \<open>
  Claim C7. The wall-clock tick that brings \<open>timeLeft\<close> to 0 (or below) ends the session:
  the state is \<open>GAMEOVER\<close> and the reason shown is "Time's Up!", whatever the lives and
  the score are; the tick changes neither of the two.
\<close>

theorem times_up_ends_session:
  "k \<in> activeIntervals w \<Longrightarrow> timeLeft w - 1 \<le> 0 \<Longrightarrow>
   timeLeft (fire (Timer k) w) = timeLeft w - 1 \<and>
   state (fire (Timer k) w) = GAMEOVER \<and>
   overlayDesc (page (fire (Timer k) w)) = ''Time's Up!'' \<and>
   lives (fire (Timer k) w) = lives w \<and> score (fire (Timer k) w) = score w"
  by (simp add: timerCallback_state)

theorem times_up_ends_session_witness:
  "1 \<in> activeIntervals lastSecond \<and> timeLeft lastSecond - 1 \<le> 0 \<and>
   timeLeft (fire (Timer 1) lastSecond) = 0 \<and>
   state (fire (Timer 1) lastSecond) = GAMEOVER \<and>
   overlayDesc (page (fire (Timer 1) lastSecond)) = ''Time's Up!'' \<and>
   lives (fire (Timer 1) lastSecond) = 2 \<and> score (fire (Timer 1) lastSecond) = 250"
proof -
  have active: "1 \<in> activeIntervals lastSecond"
    by (simp add: lastSecond_def start_def GameEngine_def small_defs)
  have fields: "timeLeft lastSecond = 1" "lives lastSecond = 2" "score lastSecond = 250"
    by (simp_all add: lastSecond_def)
  have last: "timeLeft lastSecond - 1 \<le> 0" by (simp add: fields)
  show ?thesis using times_up_ends_session [OF active last] active fields by simp
qed

subsection \<open>C8: start\<close>

text \<open>
  Claim C8. \<^verbatim>\<open>start\<close> on a running session changes nothing at all: no field of the
  session and no registered callback or timer. In any other state it resets the session to
  its defaults, makes it \<open>RUNNING\<close>, records the time of the call as the time of the last
  spawn and registers a frame callback and an interval timer.
\<close>

theorem start_is_noop_when_running_else_resets:
  "(state w = RUNNING \<longrightarrow> start now w = w) \<and>
   (state w \<noteq> RUNNING \<longrightarrow>
      score (start now w) = 0 \<and> level (start now w) = 1 \<and> timeLeft (start now w) = 60 \<and>
      lives (start now w) = 3 \<and> items (start now w) = [] \<and>
      spawnInterval (start now w) = 2000 \<and> baseSpeed (start now w) = 3 \<and>
      basketZone (start now w) = ''CENTER'' \<and> state (start now w) = RUNNING \<and>
      lastSpawnTime (start now w) = now \<and>
      nextFrameId w \<in> pendingFrames (start now w) \<and>
      nextTimerId w \<in> activeIntervals (start now w))"
  by (simp add: start_def small_defs)

theorem start_is_noop_when_running_else_resets_witness:
  "state fresh = RUNNING \<and> start 5 fresh = fresh \<and> fire (Start 5) fresh = fresh \<and>
   state lastSecond = RUNNING \<and> start 7 lastSecond = lastSecond \<and>
   state (GameEngine page0) \<noteq> RUNNING \<and>
   score fresh = 0 \<and> level fresh = 1 \<and> timeLeft fresh = 60 \<and> lives fresh = 3 \<and>
   items fresh = [] \<and> spawnInterval fresh = 2000 \<and> baseSpeed fresh = 3 \<and>
   basketZone fresh = ''CENTER''"
proof -
  have running: "state fresh = RUNNING" "state lastSecond = RUNNING"
    by (simp_all add: fresh_eval lastSecond_def start_def small_defs GameEngine_def)
  have stopped: "state (GameEngine page0) \<noteq> RUNNING" by (simp add: GameEngine_def)
  show ?thesis
    using start_is_noop_when_running_else_resets [of fresh 5]
      start_is_noop_when_running_else_resets [of lastSecond 7]
      start_is_noop_when_running_else_resets [of "GameEngine page0" 0] running stopped
    by (simp add: fresh_def)
qed

subsection \<open>C9: the bomb probability\<close>

text \<open>
  Claim C9, as far as it holds. The bomb probability is the value of
  \<^verbatim>\<open>Math.min(0.1 + level * 0.05, 0.4)\<close> in double arithmetic: the literals denote the
  nearest doubles, and the product and the sum are rounded. For every level from 1 on it is
  within \<open>2^-54\<close> of the exact \<open>min (0.1 + level * 0.05) 0.4\<close>, and from level 6 on it is the
  double \<^verbatim>\<open>0.4\<close>. At level 1 the sum of the doubles \<^verbatim>\<open>0.1\<close> and \<^verbatim>\<open>0.05\<close> lies
  halfway between two doubles and is rounded to the even one,
  \<open>0.15 + 1 / (5 * 2^53)\<close>, which JavaScript prints as \<^verbatim>\<open>0.15000000000000002\<close>: one unit
  in the last place above the double \<^verbatim>\<open>0.15\<close>.
\<close>

theorem bombChance_in_double_arithmetic:
  "1 \<le> lvl \<Longrightarrow>
   bombChance lvl = min (fl (fl (1 / 10) + fl (of_int lvl * fl (5 / 100)))) (fl (4 / 10)) \<and>
   \<bar>bombChance lvl - min (1 / 10 + of_int lvl * (5 / 100)) (4 / 10)\<bar> \<le> 1 / 2 ^ 54 \<and>
   (6 \<le> lvl \<longrightarrow> bombChance lvl = fl (4 / 10)) \<and>
   bombChance 1 = 15 / 100 + 1 / (5 * 2 ^ 53) \<and>
   bombChance 1 = fl (15 / 100) + 1 / 2 ^ 55 \<and>
   bombChance 7 = fl (4 / 10) \<and>
   fl (4 / 10) = 4 / 10 + 1 / (5 * 2 ^ 53)"
proof -
  assume lvl: "1 \<le> lvl"
  have general:
    "bombChance lvl = min (fl (fl (1 / 10) + fl (of_int lvl * fl (5 / 100)))) (fl (4 / 10))"
    by (simp add: bombChance_def fadd_def fmul_def)
  have near: "\<bar>bombChance lvl - min (1 / 10 + of_int lvl * (5 / 100)) (4 / 10)\<bar> \<le> 1 / 2 ^ 54"
    using lvl by (rule bombChance_near_exact)
  have capped: "6 \<le> lvl \<longrightarrow> bombChance lvl = fl (4 / 10)"
  proof
    assume "6 \<le> lvl"
    then consider "lvl = 6" | "7 \<le> lvl" by linarith
    then show "bombChance lvl = fl (4 / 10)"
      by cases (simp_all add: bombChance_table fl_2_5 bombChance_capped)
  qed
  have at_levels: "bombChance 1 = 15 / 100 + 1 / (5 * 2 ^ 53)"
    "bombChance 1 = fl (15 / 100) + 1 / 2 ^ 55" "bombChance 7 = fl (4 / 10)"
    "fl (4 / 10) = 4 / 10 + 1 / (5 * 2 ^ 53)"
    by (simp_all add: bombChance_table bombChance_capped fl_15_100 fl_2_5)
  show ?thesis by (intro conjI general near capped at_levels)
qed

theorem bombChance_in_double_arithmetic_witness:
  "(1 :: int) \<le> 7 \<and> (6 :: int) \<le> 7 \<and>
   \<bar>bombChance 7 - min (1 / 10 + of_int 7 * (5 / 100)) (4 / 10)\<bar> \<le> 1 / 2 ^ 54 \<and>
   bombChance 7 = fl (4 / 10)"
proof -
  have one: "(1 :: int) \<le> 7" and six: "(6 :: int) \<le> 7" by simp_all
  from bombChance_in_double_arithmetic [OF one] six
  have "\<bar>bombChance 7 - min (1 / 10 + of_int 7 * (5 / 100)) (4 / 10)\<bar> \<le> 1 / 2 ^ 54"
    and "bombChance 7 = fl (4 / 10)"
    by blast+
  with one six show ?thesis by blast
qed

text \<open>
  At level 1 the bomb probability is neither the number 0.15 nor the double that the literal
  \<^verbatim>\<open>0.15\<close> denotes.
\<close>

theorem bombChance_level_one_counterexample:
  "bombChance 1 \<noteq> 15 / 100 \<and> bombChance 1 \<noteq> fl (15 / 100)"
  by (simp add: bombChance_table fl_15_100)

subsection \<open>C10: the items at the end of a session\<close>

text \<open>
  Claim C10, as far as it holds. \<^verbatim>\<open>gameOver\<close> itself leaves the live items and every
  other field of the session except the state as they are; it sets the state, the reason and
  the final score shown. Once the tick that ended the session is over, no event other than a
  start changes the live items: no item moves or leaves, and the session stays out of
  \<open>RUNNING\<close>.
\<close>

theorem game_over_freezes_items_after_its_tick:
  "items (gameOver reason w) = items w \<and> score (gameOver reason w) = score w \<and>
   level (gameOver reason w) = level w \<and> lives (gameOver reason w) = lives w \<and>
   timeLeft (gameOver reason w) = timeLeft w \<and> baseSpeed (gameOver reason w) = baseSpeed w \<and>
   spawnInterval (gameOver reason w) = spawnInterval w \<and>
   basketZone (gameOver reason w) = basketZone w \<and>
   state (gameOver reason w) = GAMEOVER \<and>
   overlayDesc (page (gameOver reason w)) = reason \<and>
   finalScoreText (page (gameOver reason w)) = score w \<and>
   (state w \<noteq> RUNNING \<longrightarrow> (\<forall>e \<in> set es. \<not> isStart e) \<longrightarrow>
      items (run es w) = items w \<and> state (run es w) \<noteq> RUNNING)"
  using run_not_running [of w es] by (simp add: gameOver_def stop_def Let_def)

theorem game_over_freezes_items_after_its_tick_witness:
  "state (fire (Frame 1 16 600 appleDraws) lastLife) \<noteq> RUNNING \<and>
   list_all (\<lambda>e. \<not> isStart e) idleEvents \<and>
   items (run idleEvents (fire (Frame 1 16 600 appleDraws) lastLife)) =
     items (fire (Frame 1 16 600 appleDraws) lastLife) \<and>
   state (run idleEvents (fire (Frame 1 16 600 appleDraws) lastLife)) \<noteq> RUNNING"
proof -
  have over: "state (fire (Frame 1 16 600 appleDraws) lastLife) \<noteq> RUNNING"
    unfolding lastLife_frame by simp
  have idle: "\<forall>e \<in> set idleEvents. \<not> isStart e" by (simp add: idleEvents_def)
  show ?thesis
    using game_over_freezes_items_after_its_tick
      [of "''Too many fruits missed!''" "fire (Frame 1 16 600 appleDraws) lastLife" idleEvents]
      over idle
    by (simp add: list_all_iff)
qed

text \<open>
  Within the tick that ends the session the items still change. In \<open>lastLife\<close> the miss of
  the apple at index 0 ends the session, with the pear at 400 and the orange at 199 left in
  the array; the rest of the same pass then moves the orange to 202.
\<close>

theorem items_move_after_game_over_counterexample:
  "state lastLife = RUNNING \<and>
   state (moveItem 600 0 lastLife) = GAMEOVER \<and>
   map item_y (items (moveItem 600 0 lastLife)) = [400, 199] \<and>
   updateItems 600 lastLife = forEachItems 600 1 2 (moveItem 600 0 lastLife) \<and>
   map item_y (items (updateItems 600 lastLife)) = [400, 202] \<and>
   map item_y (items (fire (Frame 1 16 600 appleDraws) lastLife)) = [400, 202]"
proof -
  have pass: "state (moveItem 600 0 lastLife) = GAMEOVER"
    "map item_y (items (moveItem 600 0 lastLife)) = [400, 199]"
    "updateItems 600 lastLife = forEachItems 600 1 2 (moveItem 600 0 lastLife)"
    "map item_y (items (updateItems 600 lastLife)) = [400, 202]"
    by (simp_all add: updateItems_def eval_nat_numeral lastLife_eval moveItem_cases moved_def
        isBomb_def splice1_def Let_def)
  show ?thesis using pass lastLife_frame by (simp add: lastLife_eval)
qed

end
